theory Spec2Isabelle
  imports Main "HOL-Library.Sublist"
begin

unbundle bit_operations_syntax

section \<open>Exceptions and programs that may raise\<close>

text \<open>
  The exception classes that occur in \<^verbatim>\<open>lib/Devices.py\<close> and \<^verbatim>\<open>lib/Activity.py\<close>.
  The sources run on Python 3 (\<^verbatim>\<open>os.makedirs(..., exist_ok=True)\<close>), where
  \<^verbatim>\<open>socket.error\<close> and \<^verbatim>\<open>IOError\<close> are both aliases of \<^verbatim>\<open>OSError\<close>: one constructor
  stands for the three names. \<^verbatim>\<open>BinasciiError\<close> is what the hex codec raises on text that
  is not an even number of hex digits.
\<close>

datatype exn =
    SSHException
  | OSError
  | UnicodeDecodeError
  | UnicodeEncodeError
  | UnboundLocalError
  | AttributeError
  | ValueError
  | BinasciiError

text \<open>
  A statement sequence over a state \<open>'s\<close>: it ends with a value (\<open>Inr\<close>) or with a
  raised exception (\<open>Inl\<close>), and the state reached is kept in both cases.
\<close>

type_synonym ('s, 'a) prog = "'s \<Rightarrow> (exn + 'a) \<times> 's"

definition ret :: "'a \<Rightarrow> ('s, 'a) prog" where
  "ret x s = (Inr x, s)"

definition raise :: "exn \<Rightarrow> ('s, 'a) prog" where
  "raise e s = (Inl e, s)"

definition bnd :: "('s, 'a) prog \<Rightarrow> ('a \<Rightarrow> ('s, 'b) prog) \<Rightarrow> ('s, 'b) prog" where
  "bnd m f s = (case m s of (Inl e, s') \<Rightarrow> (Inl e, s') | (Inr x, s') \<Rightarrow> f x s')"

definition thn :: "('s, 'a) prog \<Rightarrow> ('s, 'b) prog \<Rightarrow> ('s, 'b) prog" where
  "thn m n = bnd m (\<lambda>_. n)"

text \<open>
  \<^verbatim>\<open>try: body  except (classes): handler\<close>. An exception of another class propagates.
\<close>

definition try_except :: "exn list \<Rightarrow> ('s, 'a) prog \<Rightarrow> ('s, 'a) prog \<Rightarrow> ('s, 'a) prog" where
  "try_except classes body handler s =
     (case body s of
        (Inl e, s') \<Rightarrow> if e \<in> set classes then handler s' else (Inl e, s')
      | (Inr x, s') \<Rightarrow> (Inr x, s'))"

section \<open>The credential codec of \<^verbatim>\<open>lib/Activity.py\<close>\<close>

text \<open>
  A Python \<^verbatim>\<open>str\<close> is a sequence of code points, a \<^verbatim>\<open>bytes\<close> object a sequence of
  numbers below 256; both are lists of naturals here. The hex text is ASCII and is an
  Isabelle string.
\<close>

type_synonym ustr = "nat list"
type_synonym bytes = "nat list"

text \<open>\<^verbatim>\<open>chr(n)\<close> raises \<^verbatim>\<open>ValueError\<close> beyond U+10FFFF.\<close>

definition chr :: "nat \<Rightarrow> exn + nat" where
  "chr n = (if n \<le> 0x10FFFF then Inr n else Inl ValueError)"

text \<open>\<^verbatim>\<open>zip(text, cycle(key))\<close>: the key repeated as often as needed; empty for an empty key.\<close>

definition zip_cycle :: "'a list \<Rightarrow> 'b list \<Rightarrow> ('a \<times> 'b) list" where
  "zip_cycle text key = zip text (concat (replicate (length text) key))"

text \<open>\<^verbatim>\<open>''.join(chr(f(x, y)) for (x, y) in pairs)\<close>, stopping at the first \<^verbatim>\<open>chr\<close> that raises.\<close>

fun join_chr :: "(nat \<times> nat) list \<Rightarrow> exn + ustr" where
  "join_chr [] = Inr []"
| "join_chr ((x, y) # ps) =
     (case chr (x XOR y) of
        Inl e \<Rightarrow> Inl e
      | Inr c \<Rightarrow> (case join_chr ps of Inl e \<Rightarrow> Inl e | Inr cs \<Rightarrow> Inr (c # cs)))"

text \<open>\<^verbatim>\<open>str.encode("utf-8")\<close>: one to four bytes per code point; a surrogate is refused.\<close>

definition utf8_char :: "nat \<Rightarrow> exn + bytes" where
  "utf8_char c =
     (if c < 0x80 then Inr [c]
      else if c < 0x800 then Inr [0xC0 + c div 64, 0x80 + c mod 64]
      else if c < 0x10000 then
        (if 0xD800 \<le> c \<and> c \<le> 0xDFFF then Inl UnicodeEncodeError
         else Inr [0xE0 + c div 4096, 0x80 + (c div 64) mod 64, 0x80 + c mod 64])
      else Inr [0xF0 + c div 262144, 0x80 + (c div 4096) mod 64,
                0x80 + (c div 64) mod 64, 0x80 + c mod 64])"

fun utf8_encode :: "ustr \<Rightarrow> exn + bytes" where
  "utf8_encode [] = Inr []"
| "utf8_encode (c # cs) =
     (case utf8_char c of
        Inl e \<Rightarrow> Inl e
      | Inr bs \<Rightarrow> (case utf8_encode cs of Inl e \<Rightarrow> Inl e | Inr rest \<Rightarrow> Inr (bs @ rest)))"

text \<open>\<^verbatim>\<open>codecs.encode(b, "hex")\<close>: two lower-case hex digits per byte.\<close>

definition hexdigit :: "nat \<Rightarrow> char" where
  "hexdigit d = ''0123456789abcdef'' ! (d mod 16)"

fun hex_encode :: "bytes \<Rightarrow> string" where
  "hex_encode [] = []"
| "hex_encode (b # bs) = hexdigit (b div 16) # hexdigit b # hex_encode bs"

text \<open>
  \<^verbatim>\<open>codecs.decode(text, "hex")\<close>: digits of either case, two per byte; anything else
  raises.
\<close>

definition hexval :: "char \<Rightarrow> nat option" where
  "hexval c = map_of
     [(CHR ''0'', 0), (CHR ''1'', 1), (CHR ''2'', 2), (CHR ''3'', 3), (CHR ''4'', 4),
      (CHR ''5'', 5), (CHR ''6'', 6), (CHR ''7'', 7), (CHR ''8'', 8), (CHR ''9'', 9),
      (CHR ''a'', 10), (CHR ''b'', 11), (CHR ''c'', 12), (CHR ''d'', 13), (CHR ''e'', 14),
      (CHR ''f'', 15), (CHR ''A'', 10), (CHR ''B'', 11), (CHR ''C'', 12), (CHR ''D'', 13),
      (CHR ''E'', 14), (CHR ''F'', 15)] c"

fun hex_decode :: "string \<Rightarrow> exn + bytes" where
  "hex_decode [] = Inr []"
| "hex_decode [c] = Inl BinasciiError"
| "hex_decode (c # d # cs) =
     (case (hexval c, hexval d) of
        (Some h, Some l) \<Rightarrow>
          (case hex_decode cs of Inl e \<Rightarrow> Inl e | Inr bs \<Rightarrow> Inr ((16 * h + l) # bs))
      | _ \<Rightarrow> Inl BinasciiError)"

definition xor_crypt_string :: "ustr \<Rightarrow> ustr \<Rightarrow> exn + string" where
  "xor_crypt_string plaintext key =
     (case join_chr (zip_cycle plaintext key) of
        Inl e \<Rightarrow> Inl e
      | Inr ciphertext \<Rightarrow>
          (case utf8_encode ciphertext of
             Inl e \<Rightarrow> Inl e
           | Inr bs \<Rightarrow> Inr (hex_encode bs)))"

definition xor_decrypt_string :: "string \<Rightarrow> ustr \<Rightarrow> exn + ustr" where
  "xor_decrypt_string ciphertext key =
     (case hex_decode ciphertext of
        Inl e \<Rightarrow> Inl e
      | Inr bs \<Rightarrow> join_chr (zip_cycle bs key))"

text \<open>What the claimed round trip computes: encode, then decode with the same key.\<close>

definition codec_roundtrip :: "ustr \<Rightarrow> ustr \<Rightarrow> exn + ustr" where
  "codec_roundtrip p k =
     (case xor_crypt_string p k of Inl e \<Rightarrow> Inl e | Inr c \<Rightarrow> xor_decrypt_string c k)"

section \<open>Devices: \<^verbatim>\<open>lib/Devices.py\<close>\<close>

subsection \<open>Strings\<close>

text \<open>
  Host names, commands and the decoded text of a session are Isabelle strings.
  \<^verbatim>\<open>str.lower()\<close> maps \<^verbatim>\<open>A\<close>..\<^verbatim>\<open>Z\<close> to \<^verbatim>\<open>a\<close>..\<^verbatim>\<open>z\<close>; what it does to other characters
  never produces an ASCII letter of the three device names, so they are left alone.
\<close>

definition lower_char :: "char \<Rightarrow> char" where
  "lower_char c =
     (case map_of (zip ''ABCDEFGHIJKLMNOPQRSTUVWXYZ'' ''abcdefghijklmnopqrstuvwxyz'') c of
        Some l \<Rightarrow> l
      | None \<Rightarrow> c)"

definition lower :: "string \<Rightarrow> string" where
  "lower s = map lower_char s"

text \<open>
  \<^verbatim>\<open>s.find(sub)\<close>: the lowest index at which \<^verbatim>\<open>sub\<close> starts in \<^verbatim>\<open>s\<close>, or \<^verbatim>\<open>-1\<close>.
\<close>

fun find_from :: "int \<Rightarrow> string \<Rightarrow> string \<Rightarrow> int" where
  "find_from i sub [] = (if sub = [] then i else -1)"
| "find_from i sub (c # cs) =
     (if prefix sub (c # cs) then i else find_from (i + 1) sub cs)"

definition find :: "string \<Rightarrow> string \<Rightarrow> int" where
  "find s sub = find_from 0 sub s"


subsection \<open>The remote end of a session\<close>

text \<open>
  What the SSH library and the host do is not in the repository's code: it is an input.
  A \<open>remote\<close> scripts one visit of one host. \<open>handshake\<close> is the outcome of
  \<^verbatim>\<open>SSHClient.connect\<close> and \<^verbatim>\<open>invoke_shell\<close> (\<open>None\<close>: the channel is open). Each element
  of \<open>drains\<close> is what one \<^verbatim>\<open>while RemoteShell.recv_ready(): ... recv(...)\<close> loop finds
  ready, chunk by chunk, before \<^verbatim>\<open>recv_ready()\<close> turns false; a chunk is text that
  decodes, bytes that are not UTF-8, or a \<^verbatim>\<open>recv\<close> that raises. Each element of \<open>sends\<close>
  is the outcome of one \<^verbatim>\<open>RemoteShell.send\<close>: the number of bytes accepted, or an
  exception. A script that is used up answers with nothing ready, a send that accepts
  the whole text and a close that succeeds. The library raises \<^verbatim>\<open>SSHException\<close> or
  \<^verbatim>\<open>socket.error\<close>. \<^verbatim>\<open>time.sleep\<close> has no effect on the state.
\<close>

datatype terr = SSH | Sock

fun exn_of :: "terr \<Rightarrow> exn" where
  "exn_of SSH = SSHException"
| "exn_of Sock = OSError"

datatype recv_result = Data string | Undecodable | RecvRaises terr

datatype send_result = Accepted nat | SendRaises terr

record remote =
  handshake :: "terr option"
  drains :: "recv_result list list"
  sends :: "send_result list"
  on_shell_close :: "terr option"
  on_client_close :: "terr option"

subsection \<open>Device objects\<close>

datatype variant = Device | DeviceCiscoIOS | DeviceCiscoWLC | DeviceLinux

datatype meth = Connect | Login | Superuser | Run | Logout

text \<open>
  The fields of a \<^verbatim>\<open>Device\<close> object: \<open>kind\<close> is its class, \<open>RemoteShell\<close> is false while
  the attribute is \<^verbatim>\<open>None\<close>. \<open>peer\<close> is the rest of the host's script. Two fields
  observe the run and are read by no method: \<open>trace\<close> lists the texts handed to
  \<^verbatim>\<open>RemoteShell.send\<close> and the calls of \<^verbatim>\<open>RemoteShell.close\<close> and \<^verbatim>\<open>SSHClient.close\<close>, and
  \<open>calls\<close> lists the methods invoked on the object.
\<close>

datatype wire_event = Sent string | ShellClose | ClientClose

record device =
  hostname :: string
  kind :: variant
  username :: string
  password :: string
  RemoteShell :: bool
  peer :: remote
  trace :: "wire_event list"
  calls :: "meth list"

definition new_device :: "variant \<Rightarrow> string \<Rightarrow> remote \<Rightarrow> device" where
  "new_device k h r =
     \<lparr>hostname = h, kind = k, username = [], password = [], RemoteShell = False,
      peer = r, trace = [], calls = []\<rparr>"

text \<open>
  \<^verbatim>\<open>createDevice(hostname, typeClass)\<close> returns the class of the new object; the third
  argument is the host that will answer it.
\<close>

definition createDevice_kind :: "string \<Rightarrow> variant" where
  "createDevice_kind typeClass =
     (if lower typeClass = ''ciscoios'' then DeviceCiscoIOS
      else if lower typeClass = ''ciscowlc'' then DeviceCiscoWLC
      else if lower typeClass = ''linux'' then DeviceLinux
      else Device)"

definition createDevice :: "string \<Rightarrow> string \<Rightarrow> remote \<Rightarrow> device" where
  "createDevice h typeClass r = new_device (createDevice_kind typeClass) h r"

text \<open>
  Two strings are the same up to the case of their ASCII letters.
\<close>

definition same_letter :: "char \<Rightarrow> char \<Rightarrow> bool" where
  "same_letter c d =
     (c = d
      \<or> (c, d) \<in> set (zip ''ABCDEFGHIJKLMNOPQRSTUVWXYZ'' ''abcdefghijklmnopqrstuvwxyz'')
      \<or> (d, c) \<in> set (zip ''ABCDEFGHIJKLMNOPQRSTUVWXYZ'' ''abcdefghijklmnopqrstuvwxyz''))"

definition eq_ignoring_case :: "string \<Rightarrow> string \<Rightarrow> bool" where
  "eq_ignoring_case s t = list_all2 same_letter s t"


subsection \<open>Channel primitives\<close>

abbreviation nl :: string where
  "nl \<equiv> [CHR 0x0A]"

text \<open>\<^verbatim>\<open>self.RemoteShell.send(text)\<close>; on \<^verbatim>\<open>None\<close> the attribute access raises.\<close>

definition RemoteShell_send :: "string \<Rightarrow> (device, nat) prog" where
  "RemoteShell_send txt d =
     (if \<not> RemoteShell d then (Inl AttributeError, d)
      else
        (case sends (peer d) of
           [] \<Rightarrow> (Inr (length txt), d\<lparr>trace := trace d @ [Sent txt]\<rparr>)
         | Accepted n # rest \<Rightarrow>
             (Inr n, d\<lparr>peer := (peer d)\<lparr>sends := rest\<rparr>, trace := trace d @ [Sent txt]\<rparr>)
         | SendRaises e # rest \<Rightarrow>
             (Inl (exn_of e),
              d\<lparr>peer := (peer d)\<lparr>sends := rest\<rparr>, trace := trace d @ [Sent txt]\<rparr>)))"

text \<open>
  The body of \<^verbatim>\<open>while self.RemoteShell.recv_ready(): data = recv(...).decode("utf-8"); ...\<close>
  run over the chunks that are ready: \<open>body\<close> is what the loop does with each decoded
  chunk, \<open>v\<close> the variables it changes. The loop stops at the first chunk that raises.
\<close>

fun recv_loop :: "(string \<Rightarrow> 'v \<Rightarrow> 'v) \<Rightarrow> recv_result list \<Rightarrow> 'v \<Rightarrow> exn option \<times> 'v" where
  "recv_loop body [] v = (None, v)"
| "recv_loop body (Data t # cs) v = recv_loop body cs (body t v)"
| "recv_loop body (Undecodable # cs) v = (Some UnicodeDecodeError, v)"
| "recv_loop body (RecvRaises e # cs) v = (Some (exn_of e), v)"

definition next_drain :: "device \<Rightarrow> recv_result list \<times> device" where
  "next_drain d =
     (case drains (peer d) of
        [] \<Rightarrow> ([], d)
      | cs # rest \<Rightarrow> (cs, d\<lparr>peer := (peer d)\<lparr>drains := rest\<rparr>\<rparr>))"

text \<open>A drain loop whose variables live in the method: they are lost when it raises.\<close>

definition drain :: "(string \<Rightarrow> 'v \<Rightarrow> 'v) \<Rightarrow> 'v \<Rightarrow> (device, 'v) prog" where
  "drain body v d =
     (if \<not> RemoteShell d then (Inl AttributeError, d)
      else
        (case next_drain d of
           (cs, d') \<Rightarrow>
             (case recv_loop body cs v of
                (None, v') \<Rightarrow> (Inr v', d')
              | (Some e, v') \<Rightarrow> (Inl e, d'))))"

text \<open>The two bodies used: drop the chunk, or keep it in \<^verbatim>\<open>data\<close>.\<close>

definition discard :: "string \<Rightarrow> unit \<Rightarrow> unit" where
  "discard t v = ()"

definition keep :: "string \<Rightarrow> string \<Rightarrow> string" where
  "keep t v = t"

text \<open>
  A drain loop that writes each chunk to a file object \<open>f\<close> with \<open>wr\<close>
  (\<^verbatim>\<open>outfile.write(data)\<close>): what was written stays written when the loop raises.
\<close>

definition drain_write :: "(string \<Rightarrow> 'f \<Rightarrow> 'f) \<Rightarrow> (device \<times> 'f, unit) prog" where
  "drain_write wr df =
     (case df of
        (d, f) \<Rightarrow>
          if \<not> RemoteShell d then (Inl AttributeError, (d, f))
          else
            (case next_drain d of
               (cs, d') \<Rightarrow>
                 (case recv_loop wr cs f of
                    (None, f') \<Rightarrow> (Inr (), (d', f'))
                  | (Some e, f') \<Rightarrow> (Inl e, (d', f')))))"

definition on_device :: "(device, 'a) prog \<Rightarrow> (device \<times> 'f, 'a) prog" where
  "on_device m df = (case df of (d, f) \<Rightarrow> (case m d of (r, d') \<Rightarrow> (r, (d', f))))"

definition RemoteShell_close :: "(device, unit) prog" where
  "RemoteShell_close d =
     (if \<not> RemoteShell d then (Inl AttributeError, d)
      else
        (case on_shell_close (peer d) of
           None \<Rightarrow> (Inr (), d\<lparr>trace := trace d @ [ShellClose]\<rparr>)
         | Some e \<Rightarrow> (Inl (exn_of e), d\<lparr>trace := trace d @ [ShellClose]\<rparr>)))"

definition SSHClient_close :: "(device, unit) prog" where
  "SSHClient_close d =
     (case on_client_close (peer d) of
        None \<Rightarrow> (Inr (), d\<lparr>trace := trace d @ [ClientClose]\<rparr>)
      | Some e \<Rightarrow> (Inl (exn_of e), d\<lparr>trace := trace d @ [ClientClose]\<rparr>))"

text \<open>\<^verbatim>\<open>SSHClient.connect(...)\<close> and \<^verbatim>\<open>self.RemoteShell = self.SSHClient.invoke_shell()\<close>.\<close>

definition SSHClient_connect :: "(device, unit) prog" where
  "SSHClient_connect d =
     (case handshake (peer d) of
        None \<Rightarrow> (Inr (), d\<lparr>RemoteShell := True\<rparr>)
      | Some e \<Rightarrow> (Inl (exn_of e), d))"


subsection \<open>Class \<^verbatim>\<open>Device\<close>\<close>

definition Device_connect :: "string \<Rightarrow> string \<Rightarrow> (device, bool) prog" where
  "Device_connect u p d =
     try_except [SSHException, OSError]
       (thn SSHClient_connect (ret True))
       (ret False)
       (d\<lparr>username := u, password := p\<rparr>)"

text \<open>
  The loop \<^verbatim>\<open>for cmd in commands\<close> of \<^verbatim>\<open>Device.run\<close>: send, test the count, sleep, drain
  into the file.
\<close>

fun for_commands :: "(string \<Rightarrow> 'f \<Rightarrow> 'f) \<Rightarrow> string list \<Rightarrow> (device \<times> 'f, unit) prog" where
  "for_commands wr [] df = ret () df"
| "for_commands wr (cmd # cmds) df =
     bnd (on_device (RemoteShell_send (cmd @ nl)))
       (\<lambda>n. if n = 0 then raise OSError
            else thn (drain_write wr) (for_commands wr cmds)) df"

definition Device_run :: "string list \<Rightarrow> (string \<Rightarrow> 'f \<Rightarrow> 'f) \<Rightarrow> (device \<times> 'f, bool) prog" where
  "Device_run commands wr =
     try_except [SSHException, OSError, UnicodeDecodeError]
       (thn (drain_write wr) (thn (for_commands wr commands) (ret True)))
       (ret False)"

definition Device_superuser :: "string \<Rightarrow> (device, bool) prog" where
  "Device_superuser pw = ret True"

definition Device_login :: "(device, bool) prog" where
  "Device_login = ret True"

text \<open>
  \<^verbatim>\<open>Device.logout\<close> returns \<^verbatim>\<open>True\<close>, or falls off its \<^verbatim>\<open>except\<close> clause and returns
  \<^verbatim>\<open>None\<close>: the result is a \<open>bool option\<close>.
\<close>

definition Device_logout :: "(device, bool option) prog" where
  "Device_logout =
     try_except [SSHException, OSError]
       (thn RemoteShell_close (thn SSHClient_close (ret (Some True))))
       (ret None)"

subsection \<open>Class \<^verbatim>\<open>DeviceCiscoIOS\<close>\<close>

text \<open>
  \<^verbatim>\<open>result\<close> is set to \<^verbatim>\<open>True\<close> by the last statement of the \<^verbatim>\<open>try\<close> block only, so the
  handler returns \<^verbatim>\<open>False\<close>.
\<close>

definition DeviceCiscoIOS_superuser :: "string \<Rightarrow> (device, bool) prog" where
  "DeviceCiscoIOS_superuser pw =
     try_except [SSHException]
       (thn (drain discard ())
       (thn (RemoteShell_send ''enable \<newline>'')
       (bnd (drain keep [])
         (\<lambda>data.
            if find data ''Password:'' \<noteq> -1 then
              thn (RemoteShell_send (pw @ nl))
              (bnd (drain keep [])
                (\<lambda>data. if find data ''#'' \<noteq> -1 then ret True else ret False))
            else ret False))))
       (ret False)"

definition DeviceCiscoIOS_logout :: "(device, bool option) prog" where
  "DeviceCiscoIOS_logout =
     try_except [SSHException, OSError]
       (thn (drain discard ())
       (thn (RemoteShell_send ''end \<newline>'')
       (thn (RemoteShell_send ''exit \<newline>'')
       (thn Device_logout
       (ret (Some True))))))
       (ret (Some False))"

definition DeviceCiscoIOS_login :: "(device, bool) prog" where
  "DeviceCiscoIOS_login =
     try_except [SSHException, OSError]
       (thn (drain discard ())
       (thn (RemoteShell_send ''terminal length 0 \<newline>'')
       (ret True)))
       (ret False)"


subsection \<open>Class \<^verbatim>\<open>DeviceCiscoWLC\<close>\<close>

definition DeviceCiscoWLC_logout :: "(device, bool option) prog" where
  "DeviceCiscoWLC_logout =
     try_except [SSHException, OSError]
       (thn (RemoteShell_send ''end \<newline>'')
       (thn (RemoteShell_send ''exit \<newline>'')
       (bnd (drain keep [])
         (\<lambda>data.
            thn (if find data ''save?'' \<noteq> -1 then thn (RemoteShell_send ''No \<newline>'') (ret ())
                 else ret ())
            (thn Device_logout
            (ret (Some True)))))))
       (ret (Some False))"

text \<open>
  In \<^verbatim>\<open>DeviceCiscoWLC.login\<close> the variable \<^verbatim>\<open>data\<close> is assigned in the second loop only:
  it is \<open>None\<close> while unbound, and reading it unbound raises \<^verbatim>\<open>UnboundLocalError\<close>.
\<close>

definition keep_bound :: "string \<Rightarrow> string option \<Rightarrow> string option" where
  "keep_bound t v = Some t"

definition DeviceCiscoWLC_login :: "(device, bool) prog" where
  "DeviceCiscoWLC_login d =
     try_except [SSHException, OSError]
       (thn (RemoteShell_send (username d @ nl))
       (thn (drain discard ())
       (thn (RemoteShell_send (password d @ nl))
       (bnd (drain keep_bound None)
         (\<lambda>data.
            case data of
              None \<Rightarrow> raise UnboundLocalError
            | Some t \<Rightarrow>
                if find t ''>'' = -1 then ret False
                else thn (RemoteShell_send ''config paging disable \<newline>'') (ret True))))))
       (ret False) d"

subsection \<open>Class \<^verbatim>\<open>DeviceLinux\<close>\<close>

definition DeviceLinux_superuser :: "string \<Rightarrow> (device, bool) prog" where
  "DeviceLinux_superuser pw =
     try_except [SSHException, UnicodeDecodeError]
       (thn (drain discard ())
       (thn (RemoteShell_send ''su \<newline>'')
       (bnd (drain keep [])
         (\<lambda>data.
            if find data ''Password:'' \<noteq> -1 then
              thn (RemoteShell_send (pw @ nl))
              (bnd (drain keep [])
                (\<lambda>data. if find data ''root'' \<noteq> -1 then ret True else ret False))
            else ret False))))
       (ret False)"

definition DeviceLinux_logout :: "(device, bool option) prog" where
  "DeviceLinux_logout =
     try_except [SSHException, OSError]
       (thn (RemoteShell_send ''logout \<newline>'')
       (thn Device_logout
       (ret (Some True))))
       (ret (Some False))"

subsection \<open>Method dispatch\<close>

text \<open>
  A call \<^verbatim>\<open>aDevice.m(...)\<close> runs the method of the object's class, inherited from
  \<^verbatim>\<open>Device\<close> where the class does not define it. The call is noted in \<open>calls\<close>.
\<close>

definition invoked :: "meth \<Rightarrow> device \<Rightarrow> device" where
  "invoked m d = d\<lparr>calls := calls d @ [m]\<rparr>"

definition connect :: "string \<Rightarrow> string \<Rightarrow> (device, bool) prog" where
  "connect u p d = Device_connect u p (invoked Connect d)"

definition login :: "(device, bool) prog" where
  "login d =
     (case kind d of
        Device \<Rightarrow> Device_login
      | DeviceCiscoIOS \<Rightarrow> DeviceCiscoIOS_login
      | DeviceCiscoWLC \<Rightarrow> DeviceCiscoWLC_login
      | DeviceLinux \<Rightarrow> Device_login) (invoked Login d)"

definition superuser :: "string \<Rightarrow> (device, bool) prog" where
  "superuser pw d =
     (case kind d of
        Device \<Rightarrow> Device_superuser pw
      | DeviceCiscoIOS \<Rightarrow> DeviceCiscoIOS_superuser pw
      | DeviceCiscoWLC \<Rightarrow> Device_superuser pw
      | DeviceLinux \<Rightarrow> DeviceLinux_superuser pw) (invoked Superuser d)"

definition run :: "string list \<Rightarrow> (string \<Rightarrow> 'f \<Rightarrow> 'f) \<Rightarrow> (device \<times> 'f, bool) prog" where
  "run commands wr df = Device_run commands wr (invoked Run (fst df), snd df)"

definition logout :: "(device, bool option) prog" where
  "logout d =
     (case kind d of
        Device \<Rightarrow> Device_logout
      | DeviceCiscoIOS \<Rightarrow> DeviceCiscoIOS_logout
      | DeviceCiscoWLC \<Rightarrow> DeviceCiscoWLC_logout
      | DeviceLinux \<Rightarrow> DeviceLinux_logout) (invoked Logout d)"


section \<open>Activities: \<^verbatim>\<open>lib/Activity.py\<close>\<close>

text \<open>
  The fields of an \<^verbatim>\<open>Activity\<close> that \<^verbatim>\<open>run\<close> reads. \<open>act_name\<close> and \<open>act_password\<close> are
  the attributes \<^verbatim>\<open>name\<close> and \<^verbatim>\<open>password\<close>. A directory is \<^verbatim>\<open>None\<close> or a string.
\<close>

record activity =
  act_name :: string
  user :: string
  act_password :: string
  superuserPassword :: string
  superuserNeeded :: bool
  targets :: "string list"
  commands :: "string list"
  outputDir :: "string option"
  logDir :: "string option"
  singleFile :: bool
  deviceType :: string

text \<open>\<^verbatim>\<open>if self.outputDir:\<close> holds for a string that is not empty.\<close>

fun truthy :: "string option \<Rightarrow> bool" where
  "truthy None = False"
| "truthy (Some d) = (d \<noteq> [])"

text \<open>\<^verbatim>\<open>if not aDevice.logout():\<close> holds for \<^verbatim>\<open>False\<close> and for \<^verbatim>\<open>None\<close>.\<close>

fun falsy :: "bool option \<Rightarrow> bool" where
  "falsy None = True"
| "falsy (Some b) = (\<not> b)"

datatype sink = Stdout | Stderr | File string

text \<open>
  What one turn of the loop meets: the host behind the name, and the reading of the
  clock (\<^verbatim>\<open>%Y%m%d_%H%M%S\<close>) when the target's own output file is named.
\<close>

record turn =
  host :: remote
  clock :: string

text \<open>
  The state of a run. \<open>aDevice\<close> is the loop's local variable, unbound before the first
  turn. \<open>logFile\<close> and \<open>outputFile\<close> are the attributes holding the open files, with the
  class's defaults \<^verbatim>\<open>sys.stderr\<close> and \<^verbatim>\<open>sys.stdout\<close>. \<open>log\<close> lists the messages handed to
  \<^verbatim>\<open>_writeLogFile\<close> (the line written is the time of day, \<^verbatim>\<open>": "\<close>, the message and a
  newline), \<open>out\<close> lists every text written to an output file with the file it went
  to, \<open>opened\<close> and \<open>closed\<close> list the files opened for writing and closed.
  \<open>creatable\<close> is the file system: the paths at which \<^verbatim>\<open>open(path, 'w')\<close> succeeds.
\<close>

record world =
  aDevice :: "device option"
  logFilename :: string
  outputFilename :: string
  logFile :: sink
  outputFile :: sink
  log :: "string list"
  out :: "(sink \<times> string) list"
  opened :: "string list"
  closed :: "sink list"
  creatable :: "string \<Rightarrow> bool"

definition init_world :: "(string \<Rightarrow> bool) \<Rightarrow> world" where
  "init_world fs =
     \<lparr>aDevice = None, logFilename = [], outputFilename = [], logFile = Stderr,
      outputFile = Stdout, log = [], out = [], opened = [], closed = [], creatable = fs\<rparr>"

text \<open>
  \<^verbatim>\<open>timestampedFilename(baseFileName)\<close>, with the clock reading as second argument:
  \<^verbatim>\<open>re.sub(r'[^-a-zA-Z0-9_\.]+', '', baseFileName)\<close> keeps the characters of the class.
\<close>

definition filename_char :: "char \<Rightarrow> bool" where
  "filename_char c =
     (c \<in> set ''-abcdefghijklmnopqrstuvwxyzABCDEFGHIJKLMNOPQRSTUVWXYZ0123456789_.'')"

definition timestampedFilename :: "string \<Rightarrow> string \<Rightarrow> string" where
  "timestampedFilename baseFileName now =
     filter filename_char baseFileName @ ''_'' @ now @ ''.txt''"

text \<open>\<^verbatim>\<open>os.path.join(directory, filename)\<close> for a file name without a slash.\<close>

definition path_join :: "string \<Rightarrow> string \<Rightarrow> string" where
  "path_join dir f = (if dir \<noteq> [] \<and> last dir = CHR ''/'' then dir @ f else dir @ ''/'' @ f)"

definition writeLogFile :: "string \<Rightarrow> (world, unit) prog" where
  "writeLogFile msg w = (Inr (), w\<lparr>log := log w @ [msg]\<rparr>)"

definition writeOutputFile :: "string \<Rightarrow> (world, unit) prog" where
  "writeOutputFile msg w = (Inr (), w\<lparr>out := out w @ [(outputFile w, msg)]\<rparr>)"

definition openLogFile :: "activity \<Rightarrow> (world, unit) prog" where
  "openLogFile a w =
     (if truthy (logDir a) then
        (let path = path_join (the (logDir a)) (logFilename w) in
         if creatable w path
         then (Inr (), w\<lparr>logFile := File path, opened := opened w @ [path]\<rparr>)
         else (Inl OSError, w))
      else (Inr (), w\<lparr>logFile := Stderr\<rparr>))"

definition openOutputFile :: "activity \<Rightarrow> string \<Rightarrow> (world, unit) prog" where
  "openOutputFile a filename w =
     (if truthy (outputDir a) then
        (let path = path_join (the (outputDir a)) filename in
         if creatable w path
         then (Inr (), w\<lparr>outputFile := File path, opened := opened w @ [path]\<rparr>)
         else (Inl OSError, w))
      else (Inr (), w\<lparr>outputFile := Stdout\<rparr>))"

definition closeLogFile :: "activity \<Rightarrow> (world, unit) prog" where
  "closeLogFile a w =
     (if truthy (logDir a) then (Inr (), w\<lparr>closed := closed w @ [logFile w]\<rparr>)
      else (Inr (), w))"

definition closeOutputFile :: "activity \<Rightarrow> (world, unit) prog" where
  "closeOutputFile a w =
     (if truthy (outputDir a) then (Inr (), w\<lparr>closed := closed w @ [outputFile w]\<rparr>)
      else (Inr (), w))"


subsection \<open>\<^verbatim>\<open>Activity.run\<close>\<close>

definition opening_delimiter :: "string \<Rightarrow> string" where
  "opening_delimiter h = ''\<newline>----------------'' @ h @ ''--------------\<newline>''"

definition closing_delimiter :: string where
  "closing_delimiter = ''\<newline>--------------------------------------------------\<newline>''"

text \<open>A method call on the loop's variable \<^verbatim>\<open>aDevice\<close>.\<close>

definition on_aDevice :: "(device, 'a) prog \<Rightarrow> (world, 'a) prog" where
  "on_aDevice m w =
     (case aDevice w of
        None \<Rightarrow> (Inl UnboundLocalError, w)
      | Some d \<Rightarrow> (case m d of (r, d') \<Rightarrow> (r, w\<lparr>aDevice := Some d'\<rparr>)))"

text \<open>
  \<^verbatim>\<open>aDevice.run(self.commands, self.outputFile)\<close>: the file object handed over is the
  current output file, and a write to it is noted in \<open>out\<close>.
\<close>

definition run_commands :: "string list \<Rightarrow> (world, bool) prog" where
  "run_commands cmds w =
     (case aDevice w of
        None \<Rightarrow> (Inl UnboundLocalError, w)
      | Some d \<Rightarrow>
          (case run cmds (\<lambda>t written. written @ [(outputFile w, t)]) (d, out w) of
             (r, (d', written)) \<Rightarrow> (r, w\<lparr>aDevice := Some d', out := written\<rparr>)))"

text \<open>
  The statements of the loop body after the last \<^verbatim>\<open>continue\<close>: open the target's file,
  opening delimiter, commands, logout, closing delimiter, close, and the log line.
\<close>

definition serve :: "activity \<Rightarrow> string \<Rightarrow> turn \<Rightarrow> (world, unit) prog" where
  "serve a h env =
     thn (if \<not> singleFile a then openOutputFile a (timestampedFilename h (clock env))
          else ret ())
    (thn (writeOutputFile (opening_delimiter h))
    (bnd (run_commands (commands a))
      (\<lambda>r.
     thn (if \<not> r then writeLogFile ''ERROR while running the commmands'' else ret ())
    (bnd (on_aDevice logout)
      (\<lambda>lo.
     thn (if falsy lo then writeLogFile ''ERROR while logging out'' else ret ())
    (thn (writeOutputFile closing_delimiter)
    (thn (if \<not> singleFile a then closeOutputFile a else ret ())
    (writeLogFile (''Finished commands at '' @ h)))))))))"

text \<open>
  The body of \<^verbatim>\<open>for hostname in self.targets\<close>. A \<^verbatim>\<open>continue\<close> ends the body: the
  branch that holds it does not go on to the statements that follow.
\<close>

definition visit :: "activity \<Rightarrow> string \<Rightarrow> turn \<Rightarrow> (world, unit) prog" where
  "visit a h env w =
     bnd (on_aDevice (connect (user a) (act_password a)))
       (\<lambda>c.
          if \<not> c then
            writeLogFile (''Unable to connect to '' @ h @ ''. Test with a local SSH session.'')
          else
            thn (writeLogFile (''Connected to '' @ h))
            (bnd (on_aDevice login)
              (\<lambda>l.
                 if \<not> l then
                   writeLogFile (''Unable to login to '' @ h
                                 @ ''. '' @ [CHR 0x09] @ '' Test with the default Device type.'')
                 else if superuserNeeded a then
                   bnd (on_aDevice (superuser (superuserPassword a)))
                     (\<lambda>su.
                        if \<not> su then writeLogFile (''Unable to superuser at '' @ h)
                        else thn (writeLogFile (''Superuser at '' @ h)) (serve a h env))
                 else serve a h env)))
       (w\<lparr>aDevice := Some (createDevice h (deviceType a) (host env))\<rparr>)"

fun for_targets :: "activity \<Rightarrow> (string \<times> turn) list \<Rightarrow> (world, unit) prog" where
  "for_targets a [] w = ret () w"
| "for_targets a ((h, env) # vs) w = thn (visit a h env) (for_targets a vs) w"

text \<open>
  \<^verbatim>\<open>Activity.run\<close>. \<open>now\<close> is the clock when the run starts, \<open>net i\<close> is what turn \<open>i\<close> of
  the loop meets. No statement of \<^verbatim>\<open>run\<close> is in a \<^verbatim>\<open>try\<close>: an exception ends the run.
\<close>

definition visits :: "activity \<Rightarrow> (nat \<Rightarrow> turn) \<Rightarrow> (string \<times> turn) list" where
  "visits a net = zip (targets a) (map net [0..<length (targets a)])"

definition Activity_run :: "activity \<Rightarrow> string \<Rightarrow> (nat \<Rightarrow> turn) \<Rightarrow> (world, unit) prog" where
  "Activity_run a now net w =
     thn (openLogFile a)
    (thn (if singleFile a then (\<lambda>w. openOutputFile a (outputFilename w) w) else ret ())
    (thn (for_targets a (visits a net))
    (thn (writeLogFile ''Finished activity'')
    (thn (if singleFile a then closeOutputFile a else ret ())
    (thn (writeLogFile ''END'')
    (closeLogFile a))))))
       (w\<lparr>outputFilename := timestampedFilename (act_name a @ ''_OUT'') now,
          logFilename := timestampedFilename (act_name a @ ''_LOG'') now\<rparr>)"


section \<open>Concrete sessions\<close>

text \<open>A host that accepts the connection and then never has anything ready.\<close>

definition silent_host :: remote where
  "silent_host =
     \<lparr>handshake = None, drains = [], sends = [], on_shell_close = None,
      on_client_close = None\<rparr>"

definition wlc_activity :: activity where
  "wlc_activity =
     \<lparr>act_name = ''audit'', user = ''admin'', act_password = ''secret'',
      superuserPassword = [], superuserNeeded = False, targets = [''10.0.0.1''],
      commands = [''show version''], outputDir = None, logDir = None, singleFile = False,
      deviceType = ''ciscowlc''\<rparr>"

section \<open>Notions used in the statements\<close>

text \<open>A statement sequence leaves an observation \<open>f\<close> of the state as it was.\<close>

definition preserves :: "('s \<Rightarrow> 'b) \<Rightarrow> ('s, 'a) prog \<Rightarrow> bool" where
  "preserves f m = (\<forall>s. f (snd (m s)) = f s)"

text \<open>The number of calls of \<^verbatim>\<open>RemoteShell.close\<close> and \<^verbatim>\<open>SSHClient.close\<close> so far.\<close>

fun is_close :: "wire_event \<Rightarrow> bool" where
  "is_close (Sent t) = False"
| "is_close ShellClose = True"
| "is_close ClientClose = True"

definition close_calls :: "device \<Rightarrow> nat" where
  "close_calls d = length (filter is_close (trace d))"

text \<open>
  The statements of each \<^verbatim>\<open>logout\<close> method that come before \<^verbatim>\<open>super().logout()\<close>:
  the dialogue that precedes the closure. The class \<^verbatim>\<open>Device\<close> has none.
\<close>

definition pre_closure :: "variant \<Rightarrow> (device, unit) prog" where
  "pre_closure k =
     (case k of
        Device \<Rightarrow> ret ()
      | DeviceCiscoIOS \<Rightarrow>
          thn (drain discard ())
         (thn (RemoteShell_send ''end \<newline>'')
         (thn (RemoteShell_send ''exit \<newline>'') (ret ())))
      | DeviceCiscoWLC \<Rightarrow>
          thn (RemoteShell_send ''end \<newline>'')
         (thn (RemoteShell_send ''exit \<newline>'')
         (bnd (drain keep [])
           (\<lambda>data. if find data ''save?'' \<noteq> -1
                   then thn (RemoteShell_send ''No \<newline>'') (ret ())
                   else ret ())))
      | DeviceLinux \<Rightarrow> thn (RemoteShell_send ''logout \<newline>'') (ret ()))"

text \<open>A host that accepts the connection and whose channel fails at the first send.\<close>

definition refusing_host :: remote where
  "refusing_host =
     \<lparr>handshake = None, drains = [], sends = [SendRaises Sock], on_shell_close = None,
      on_client_close = None\<rparr>"

definition linux_session :: device where
  "linux_session =
     snd (connect ''admin'' ''secret'' (createDevice ''10.0.0.1'' ''linux'' refusing_host))"

definition su_activity :: activity where
  "su_activity =
     \<lparr>act_name = ''audit'', user = ''admin'', act_password = ''secret'',
      superuserPassword = ''toor'', superuserNeeded = True, targets = [''10.0.0.2''],
      commands = [''id''], outputDir = None, logDir = None, singleFile = False,
      deviceType = ''linux''\<rparr>"

definition silent_turn :: turn where
  "silent_turn = \<lparr>host = silent_host, clock = ''20181101_120001''\<rparr>"


definition su_session1 :: device where
  "su_session1 =
     snd (connect ''admin'' ''secret'' (createDevice ''10.0.0.2'' ''linux'' silent_host))"

definition su_session2 :: device where
  "su_session2 = snd (login su_session1)"

definition su_session3 :: device where
  "su_session3 = snd (superuser ''toor'' su_session2)"

text \<open>
  The first statements of \<^verbatim>\<open>DeviceCiscoIOS.superuser\<close>, up to the drain that follows
  \<^verbatim>\<open>enable\<close>; the value is what that drain leaves in \<^verbatim>\<open>data\<close>: the last chunk received, or
  the empty string. Then the statements that send the password and drain again.
\<close>

definition enable_dialogue :: "(device, string) prog" where
  "enable_dialogue =
     thn (drain discard ()) (thn (RemoteShell_send ''enable \<newline>'') (drain keep []))"

definition password_dialogue :: "string \<Rightarrow> (device, string) prog" where
  "password_dialogue pw = thn (RemoteShell_send (pw @ nl)) (drain keep [])"

text \<open>A router that asks for the enable password and then shows the \<^verbatim>\<open>#\<close> prompt.\<close>

definition prompting_host :: remote where
  "prompting_host =
     \<lparr>handshake = None,
      drains = [[Data ''Router>''], [Data ''enable'', Data ''Password: ''], [Data ''Router#'']],
      sends = [], on_shell_close = None, on_client_close = None\<rparr>"

definition ios_session :: "remote \<Rightarrow> device" where
  "ios_session r = snd (connect ''admin'' ''secret'' (createDevice ''10.0.0.3'' ''ciscoios'' r))"

text \<open>
  The number of bytes a \<^verbatim>\<open>send\<close> accepted: none when it raised. A chunk fails when it
  does not decode or its \<^verbatim>\<open>recv\<close> raises.
\<close>

fun bytes_accepted :: "send_result \<Rightarrow> nat" where
  "bytes_accepted (Accepted n) = n"
| "bytes_accepted (SendRaises e) = 0"

fun fails :: "recv_result \<Rightarrow> bool" where
  "fails (Data t) = False"
| "fails Undecodable = True"
| "fails (RecvRaises e) = True"

text \<open>
  What the claim calls a failure of the command runner on \<open>n\<close> commands: one of the
  \<open>n\<close> sends accepts zero bytes, or a chunk fails in one of the \<open>n + 1\<close> drains (the
  residual one and one after each command).
\<close>

definition script_failure :: "nat \<Rightarrow> remote \<Rightarrow> bool" where
  "script_failure n r =
     (list_ex (\<lambda>s. bytes_accepted s = 0) (take n (sends r))
      \<or> list_ex (list_ex fails) (take (Suc n) (drains r)))"

text \<open>The device after a \<^verbatim>\<open>send\<close>, and after a drain loop.\<close>

definition sent_state :: "string \<Rightarrow> device \<Rightarrow> device" where
  "sent_state t d = d\<lparr>peer := (peer d)\<lparr>sends := tl (sends (peer d))\<rparr>, trace := trace d @ [Sent t]\<rparr>"

definition drained_state :: "device \<Rightarrow> device" where
  "drained_state d = d\<lparr>peer := (peer d)\<lparr>drains := tl (drains (peer d))\<rparr>\<rparr>"

definition next_chunks :: "recv_result list list \<Rightarrow> recv_result list" where
  "next_chunks ds = (case ds of [] \<Rightarrow> [] | cs # _ \<Rightarrow> cs)"

text \<open>The classes that the \<^verbatim>\<open>except\<close> clause of \<^verbatim>\<open>Device.run\<close> names.\<close>

definition caught :: "exn set" where
  "caught = {SSHException, OSError, UnicodeDecodeError}"

text \<open>The same for the loop over the commands alone.\<close>

definition loop_failure :: "nat \<Rightarrow> send_result list \<Rightarrow> recv_result list list \<Rightarrow> bool" where
  "loop_failure n ss ds =
     (list_ex (\<lambda>s. bytes_accepted s = 0) (take n ss) \<or> list_ex (list_ex fails) (take n ds))"

text \<open>A statement sequence only appends to the list in its state.\<close>

definition grows :: "('d \<times> 'a list, 'b) prog \<Rightarrow> bool" where
  "grows m = (\<forall>s. prefix (snd s) (snd (snd (m s))))"

text \<open>
  A target has a file of its own when the output is not a single file and a directory
  is set; \<open>target_path\<close> is its path, and \<open>sink_opened\<close> the state after the
  \<^verbatim>\<open>_openOutputFile\<close> of the turn has succeeded (or was skipped).
\<close>

definition own_file :: "activity \<Rightarrow> bool" where
  "own_file a = (\<not> singleFile a \<and> truthy (outputDir a))"

definition target_path :: "activity \<Rightarrow> string \<Rightarrow> turn \<Rightarrow> string" where
  "target_path a h env = path_join (the (outputDir a)) (timestampedFilename h (clock env))"

definition sink_opened :: "activity \<Rightarrow> string \<Rightarrow> turn \<Rightarrow> world \<Rightarrow> world" where
  "sink_opened a h env w =
     (if singleFile a then w
      else if truthy (outputDir a)
        then w\<lparr>outputFile := File (target_path a h env),
               opened := opened w @ [target_path a h env]\<rparr>
        else w\<lparr>outputFile := Stdout\<rparr>)"

text \<open>
  The steps of a turn that end in a \<^verbatim>\<open>continue\<close> when they fail: \<^verbatim>\<open>connect\<close>, \<^verbatim>\<open>login\<close>
  and, when the activity asks for it, \<^verbatim>\<open>superuser\<close>. A target is admitted to the command
  phase when all of them return \<^verbatim>\<open>True\<close>.
\<close>

definition admission :: "activity \<Rightarrow> (device, bool) prog" where
  "admission a =
     bnd (connect (user a) (act_password a))
       (\<lambda>c. if \<not> c then ret False
            else bnd login
              (\<lambda>l. if \<not> l then ret False
                   else if superuserNeeded a then superuser (superuserPassword a)
                   else ret True))"

definition admitted :: "activity \<Rightarrow> string \<times> turn \<Rightarrow> bool" where
  "admitted a v =
     (fst (admission a (createDevice (fst v) (deviceType a) (host (snd v)))) = Inr True)"

text \<open>The log lines \<^verbatim>\<open>Finished commands at <hostname>\<close>.\<close>

definition finished_line :: "string \<Rightarrow> bool" where
  "finished_line l = prefix ''Finished commands at '' l"

definition finished_lines :: "string list \<Rightarrow> string list" where
  "finished_lines lg = filter finished_line lg"

text \<open>A host that cannot be reached, and an activity on two targets of the generic type.\<close>

definition unreachable_host :: remote where
  "unreachable_host =
     \<lparr>handshake = Some Sock, drains = [], sends = [], on_shell_close = None,
      on_client_close = None\<rparr>"

definition two_targets :: activity where
  "two_targets =
     \<lparr>act_name = ''audit'', user = ''admin'', act_password = ''secret'',
      superuserPassword = [], superuserNeeded = False, targets = [''10.0.0.1'', ''10.0.0.2''],
      commands = [''show version''], outputDir = None, logDir = None, singleFile = False,
      deviceType = []\<rparr>"

definition mixed_net :: "nat \<Rightarrow> turn" where
  "mixed_net i =
     \<lparr>host = (if i = 0 then unreachable_host else silent_host), clock = ''20181101_120001''\<rparr>"

text \<open>The state of a turn whose device is the session with the failing channel.\<close>

definition failing_world :: world where
  "failing_world = (init_world (\<lambda>path. True))\<lparr>aDevice := Some linux_session\<rparr>"

text \<open>The chunks of a drain that are received and decoded before the loop ends.\<close>

fun texts :: "recv_result list \<Rightarrow> string list" where
  "texts [] = []"
| "texts (Data t # cs) = t # texts cs"
| "texts (Undecodable # cs) = []"
| "texts (RecvRaises e # cs) = []"

text \<open>
  A router that answers the command and then has bytes ready that are not UTF-8 when
  \<^verbatim>\<open>logout\<close> drains the channel.
\<close>

definition garbling_host :: remote where
  "garbling_host =
     \<lparr>handshake = None,
      drains = [[], [], [Data ''Cisco IOS Software''], [Undecodable]],
      sends = [], on_shell_close = None, on_client_close = None\<rparr>"

definition ios_activity :: activity where
  "ios_activity =
     \<lparr>act_name = ''audit'', user = ''admin'', act_password = ''secret'',
      superuserPassword = [], superuserNeeded = False, targets = [''10.0.0.4''],
      commands = [''show version''], outputDir = None, logDir = None, singleFile = False,
      deviceType = ''ciscoios''\<rparr>"

text \<open>A host of the generic type that greets with a banner in two chunks.\<close>

definition banner_host :: remote where
  "banner_host =
     \<lparr>handshake = None, drains = [[Data ''Last login: '', Data ''Thu Nov 1'']],
      sends = [], on_shell_close = None, on_client_close = None\<rparr>"

definition banner_session :: device where
  "banner_session =
     snd (connect ''admin'' ''secret'' (createDevice ''10.0.0.5'' [] banner_host))"

definition banner_world :: world where
  "banner_world = (init_world (\<lambda>path. True))\<lparr>aDevice := Some banner_session\<rparr>"

(*THEOREMS*)

section \<open>Evaluation\<close>

lemmas prog_defs = ret_def raise_def bnd_def thn_def try_except_def

lemmas channel_defs =
  RemoteShell_send_def next_drain_def drain_def discard_def keep_def keep_bound_def
  drain_write_def on_device_def RemoteShell_close_def SSHClient_close_def
  SSHClient_connect_def

lemmas device_defs =
  new_device_def createDevice_kind_def createDevice_def lower_def lower_char_def find_def
  Device_connect_def Device_run_def Device_superuser_def Device_login_def Device_logout_def
  DeviceCiscoIOS_superuser_def DeviceCiscoIOS_logout_def DeviceCiscoIOS_login_def
  DeviceCiscoWLC_logout_def DeviceCiscoWLC_login_def DeviceLinux_superuser_def
  DeviceLinux_logout_def invoked_def connect_def login_def superuser_def run_def logout_def

lemmas activity_defs =
  init_world_def filename_char_def timestampedFilename_def path_join_def writeLogFile_def
  writeOutputFile_def openLogFile_def openOutputFile_def closeLogFile_def
  closeOutputFile_def on_aDevice_def run_commands_def serve_def visit_def visits_def
  Activity_run_def

section \<open>The credential codec\<close>

lemma crypt_e_acute: "xor_crypt_string [0xE9] [0x61] = Inr ''c288''"
  by (simp add: xor_crypt_string_def zip_cycle_def chr_def utf8_char_def hexdigit_def)

lemma decrypt_c288: "xor_decrypt_string ''c288'' [0x61] = Inr [0xA3, 0xE9]"
  by (simp add: xor_decrypt_string_def zip_cycle_def chr_def hexval_def)

text \<open>
  Claim C5. The claim says that decoding the encoded form with the same key gives the
  plaintext back, for every plaintext and every key that is not empty. On the plaintext
  U+00E9 with the key \<^verbatim>\<open>"a"\<close> the code does not: the XOR is U+0088, which
  \<^verbatim>\<open>encode("utf-8")\<close> turns into the two bytes C2 88, and \<^verbatim>\<open>xor_decrypt_string\<close> XORs the
  bytes, not the decoded characters; the result is the two characters U+00A3 U+00E9.
\<close>

theorem xor_roundtrip_e_acute:
  "xor_crypt_string [0xE9] [0x61] = Inr ''c288''
   \<and> xor_decrypt_string ''c288'' [0x61] = Inr [0xA3, 0xE9]
   \<and> codec_roundtrip [0xE9] [0x61] \<noteq> Inr [0xE9]"
  by (simp add: codec_roundtrip_def crypt_e_acute decrypt_c288)

section \<open>Creating devices\<close>

lemma upper_keys_distinct:
  "distinct (map fst (zip ''ABCDEFGHIJKLMNOPQRSTUVWXYZ'' ''abcdefghijklmnopqrstuvwxyz''))"
  by simp

lemma lower_char_iff:
  assumes d: "d \<notin> set ''ABCDEFGHIJKLMNOPQRSTUVWXYZ''"
  shows "lower_char c = d \<longleftrightarrow> same_letter c d"
proof -
  define tab where "tab = zip ''ABCDEFGHIJKLMNOPQRSTUVWXYZ'' ''abcdefghijklmnopqrstuvwxyz''"
  have dist: "distinct (map fst tab)"
    unfolding tab_def by (rule upper_keys_distinct)
  have keys: "\<And>x y. (x, y) \<in> set tab \<Longrightarrow> x \<in> set ''ABCDEFGHIJKLMNOPQRSTUVWXYZ''"
    unfolding tab_def by (rule set_zip_leftD)
  have low: "lower_char c = (case map_of tab c of Some l \<Rightarrow> l | None \<Rightarrow> c)"
    unfolding tab_def lower_char_def ..
  have same: "same_letter c d \<longleftrightarrow> (c = d \<or> (c, d) \<in> set tab \<or> (d, c) \<in> set tab)"
    unfolding tab_def same_letter_def ..
  have nd: "(d, c) \<notin> set tab" using keys d by blast
  show ?thesis
  proof (cases "map_of tab c")
    case None
    then have "(c, d) \<notin> set tab"
      using dist by (metis map_of_eq_Some_iff option.distinct(1))
    with None nd show ?thesis by (simp add: low same)
  next
    case (Some l)
    then have in_tab: "(c, l) \<in> set tab" by (rule map_of_SomeD)
    then have "c \<noteq> d" using keys d by blast
    moreover have "(c, d) \<in> set tab \<longleftrightarrow> l = d"
      using dist Some by (metis map_of_eq_Some_iff option.inject)
    ultimately show ?thesis using Some nd by (simp add: low same)
  qed
qed

lemma lower_eq_iff:
  "\<forall>d\<in>set n. d \<notin> set ''ABCDEFGHIJKLMNOPQRSTUVWXYZ''
   \<Longrightarrow> lower t = n \<longleftrightarrow> eq_ignoring_case t n"
  unfolding lower_def eq_ignoring_case_def
proof (induction t arbitrary: n)
  case Nil
  then show ?case by auto
next
  case (Cons c t)
  show ?case
  proof (cases n)
    case Nil
    then show ?thesis by simp
  next
    case (Cons d n')
    with Cons.prems Cons.IH[of n'] lower_char_iff[of d c] show ?thesis by auto
  qed
qed

lemma lower_ciscoios: "lower t = ''ciscoios'' \<longleftrightarrow> eq_ignoring_case t ''ciscoios''"
  by (rule lower_eq_iff) simp

lemma lower_ciscowlc: "lower t = ''ciscowlc'' \<longleftrightarrow> eq_ignoring_case t ''ciscowlc''"
  by (rule lower_eq_iff) simp

lemma lower_linux: "lower t = ''linux'' \<longleftrightarrow> eq_ignoring_case t ''linux''"
  by (rule lower_eq_iff) simp

text \<open>
  Claim C9. For every type string \<^verbatim>\<open>createDevice\<close> returns a device for the host name
  it was given: of class \<^verbatim>\<open>DeviceCiscoIOS\<close>, \<^verbatim>\<open>DeviceCiscoWLC\<close> or \<^verbatim>\<open>DeviceLinux\<close> when the
  string is \<^verbatim>\<open>ciscoios\<close>, \<^verbatim>\<open>ciscowlc\<close> or \<^verbatim>\<open>linux\<close> up to the case of its letters, and of
  the generic class \<^verbatim>\<open>Device\<close> for any other string; the empty string and an unknown
  name are among the latter. No branch raises.
\<close>

theorem createDevice_total:
  "createDevice h t r =
     new_device
       (if eq_ignoring_case t ''ciscoios'' then DeviceCiscoIOS
        else if eq_ignoring_case t ''ciscowlc'' then DeviceCiscoWLC
        else if eq_ignoring_case t ''linux'' then DeviceLinux
        else Device) h r
   \<and> hostname (createDevice h t r) = h
   \<and> kind (createDevice h [] r) = Device
   \<and> kind (createDevice h ''juniper'' r) = Device
   \<and> kind (createDevice h ''CiscoIOS'' r) = DeviceCiscoIOS
   \<and> kind (createDevice h ''ciscoWLC'' r) = DeviceCiscoWLC
   \<and> kind (createDevice h ''LINUX'' r) = DeviceLinux"
proof -
  have "createDevice_kind t =
     (if eq_ignoring_case t ''ciscoios'' then DeviceCiscoIOS
      else if eq_ignoring_case t ''ciscowlc'' then DeviceCiscoWLC
      else if eq_ignoring_case t ''linux'' then DeviceLinux
      else Device)"
    unfolding createDevice_kind_def lower_ciscoios lower_ciscowlc lower_linux ..
  then have "createDevice h t r =
     new_device
       (if eq_ignoring_case t ''ciscoios'' then DeviceCiscoIOS
        else if eq_ignoring_case t ''ciscowlc'' then DeviceCiscoWLC
        else if eq_ignoring_case t ''linux'' then DeviceLinux
        else Device) h r"
    by (simp only: createDevice_def)
  moreover have "hostname (createDevice h t r) = h"
    by (simp add: createDevice_def new_device_def)
  moreover have "kind (createDevice h [] r) = Device"
    by (simp add: device_defs)
  moreover have "kind (createDevice h ''juniper'' r) = Device"
    by (simp add: device_defs)
  moreover have "kind (createDevice h ''CiscoIOS'' r) = DeviceCiscoIOS"
    by (simp add: device_defs)
  moreover have "kind (createDevice h ''ciscoWLC'' r) = DeviceCiscoWLC"
    by (simp add: device_defs)
  moreover have "kind (createDevice h ''LINUX'' r) = DeviceLinux"
    by (simp add: device_defs)
  ultimately show ?thesis by blast
qed

section \<open>The login of the wireless controller\<close>

text \<open>
  Claim C3. The claim says that \<^verbatim>\<open>DeviceCiscoWLC.login\<close> returns \<^verbatim>\<open>False\<close>, and never
  raises, whenever the text drained after the credentials lacks \<^verbatim>\<open>>\<close>. When the host has
  nothing ready after the password, the second loop never assigns \<^verbatim>\<open>data\<close>, and
  \<^verbatim>\<open>data.find(">")\<close> raises \<^verbatim>\<open>UnboundLocalError\<close>, which the \<^verbatim>\<open>except\<close> clause does not
  name: \<^verbatim>\<open>login\<close> raises, and so does \<^verbatim>\<open>Activity.run\<close>.
\<close>

theorem wlc_login_raises_on_silence:
  "fst (connect ''admin'' ''secret'' (createDevice ''10.0.0.1'' ''ciscowlc'' silent_host))
     = Inr True
   \<and> fst (login (snd (connect ''admin'' ''secret''
              (createDevice ''10.0.0.1'' ''ciscowlc'' silent_host)))) = Inl UnboundLocalError
   \<and> fst (Activity_run wlc_activity ''20181101_120000''
            (\<lambda>i. \<lparr>host = silent_host, clock = ''20181101_120001''\<rparr>)
            (init_world (\<lambda>path. True))) = Inl UnboundLocalError"
  by (simp add: prog_defs channel_defs device_defs activity_defs silent_host_def
      wlc_activity_def)

section \<open>Statement sequences\<close>

lemma preservesD: "preserves f m \<Longrightarrow> f (snd (m s)) = f s"
  by (simp add: preserves_def)

lemma preserves_ret [simp]: "preserves f (ret x)"
  by (simp add: preserves_def ret_def)

lemma preserves_raise [simp]: "preserves f (raise e)"
  by (simp add: preserves_def raise_def)

lemma preserves_bnd [intro!]:
  "preserves f m \<Longrightarrow> (\<And>x. preserves f (g x)) \<Longrightarrow> preserves f (bnd m g)"
  unfolding preserves_def bnd_def
  by (auto split: prod.splits sum.splits) (metis snd_conv)+

lemma preserves_thn [intro!]:
  "preserves f m \<Longrightarrow> preserves f n \<Longrightarrow> preserves f (thn m n)"
  unfolding thn_def by (rule preserves_bnd)

lemma preserves_try [intro!]:
  "preserves f m \<Longrightarrow> preserves f h \<Longrightarrow> preserves f (try_except cs m h)"
  unfolding preserves_def try_except_def
  by (auto split: prod.splits sum.splits) (metis snd_conv)+

lemma preserves_if [intro!]:
  "preserves f m \<Longrightarrow> preserves f n \<Longrightarrow> preserves f (if c then m else n)"
  by simp

lemma send_calls [simp]: "preserves calls (RemoteShell_send t)"
  by (auto simp: preserves_def RemoteShell_send_def split: list.splits send_result.splits)

lemma drain_calls [simp]: "preserves calls (drain b v)"
  by (auto simp: preserves_def drain_def next_drain_def split: list.splits prod.splits option.splits)

lemma close_calls_calls [simp]: "preserves calls RemoteShell_close" "preserves calls SSHClient_close"
  "preserves calls SSHClient_connect"
  by (auto simp: preserves_def RemoteShell_close_def SSHClient_close_def SSHClient_connect_def split: option.splits)

lemma send_closes [simp]: "preserves close_calls (RemoteShell_send t)"
  by (auto simp: preserves_def close_calls_def RemoteShell_send_def split: list.splits send_result.splits)

lemma drain_closes [simp]: "preserves close_calls (drain b v)"
  by (auto simp: preserves_def close_calls_def drain_def next_drain_def split: list.splits prod.splits option.splits)

lemma pre_closure_closes: "preserves close_calls (pre_closure k)"
  by (cases k) (auto simp: pre_closure_def)

section \<open>Logging out\<close>

lemma thn_assoc: "thn (thn a b) c = thn a (thn b c)"
  by (auto simp: thn_def bnd_def fun_eq_iff split: prod.splits sum.splits)

lemma bnd_thn_assoc: "thn (bnd a f) c = bnd a (\<lambda>x. thn (f x) c)"
  by (auto simp: thn_def bnd_def fun_eq_iff split: prod.splits sum.splits)

lemma thn_ret_unit: "thn (ret ()) c = c"
  by (auto simp: thn_def bnd_def ret_def fun_eq_iff)

lemma thn_if: "thn (if b then x else y) c = (if b then thn x c else thn y c)"
  by simp

lemma logout_shape:
  "logout d =
     (if kind d = Device then Device_logout (invoked Logout d)
      else try_except [SSHException, OSError]
             (thn (pre_closure (kind d)) (thn Device_logout (ret (Some True))))
             (ret (Some False)) (invoked Logout d))"
  by (cases "kind d")
     (simp_all add: logout_def pre_closure_def DeviceCiscoIOS_logout_def
        DeviceCiscoWLC_logout_def DeviceLinux_logout_def thn_assoc bnd_thn_assoc thn_ret_unit
        thn_if cong: if_cong)

lemma pre_closure_generic: "pre_closure Device s = (Inr (), s)"
  by (simp add: pre_closure_def ret_def)

text \<open>
  Claim C4, as amended. For every device variant, when the dialogue that precedes the
  closure raises \<^verbatim>\<open>SSHException\<close> or a socket error, \<^verbatim>\<open>logout\<close> catches it and returns
  \<^verbatim>\<open>False\<close>, in the state the dialogue left; no close operation is called on the session:
  \<^verbatim>\<open>super().logout()\<close> is inside the \<^verbatim>\<open>try\<close> block and is skipped.
\<close>

theorem logout_dialogue_exception:
  assumes "pre_closure (kind d) (invoked Logout d) = (Inl e, d')"
    and "e = SSHException \<or> e = OSError"
  shows "logout d = (Inr (Some False), d') \<and> close_calls d' = close_calls d"
proof -
  have k: "kind d \<noteq> Device"
    using assms(1) by (auto simp: pre_closure_generic)
  have "close_calls d' = close_calls (invoked Logout d)"
    using preservesD[OF pre_closure_closes, of "kind d" "invoked Logout d"] assms(1) by simp
  then have c: "close_calls d' = close_calls d"
    by (simp add: close_calls_def invoked_def)
  have "logout d = (Inr (Some False), d')"
    using k assms by (auto simp: logout_shape try_except_def thn_def bnd_def ret_def)
  with c show ?thesis by simp
qed

lemma linux_session_eval:
  "linux_session = (new_device DeviceLinux ''10.0.0.1'' refusing_host)
      \<lparr>username := ''admin'', password := ''secret'', RemoteShell := True, calls := [Connect]\<rparr>"
  by (simp add: linux_session_def prog_defs channel_defs device_defs refusing_host_def)

text \<open>
  Claim C4, as stated, fails. On a \<^verbatim>\<open>DeviceLinux\<close> session whose channel raises a socket
  error when \<^verbatim>\<open>logout\<close> sends its command, the exception is caught and \<^verbatim>\<open>False\<close> is
  returned, but \<^verbatim>\<open>RemoteShell.close\<close> is never called.
\<close>

theorem logout_exception_skips_close:
  "fst (pre_closure (kind linux_session) (invoked Logout linux_session)) = Inl OSError
   \<and> \<not> (fst (logout linux_session) = Inr (Some False)
        \<and> ShellClose \<in> set (trace (snd (logout linux_session))))"
  by (simp add: linux_session_eval pre_closure_def prog_defs channel_defs device_defs
      refusing_host_def)

theorem logout_dialogue_exception_witness:
  "fst (pre_closure (kind linux_session) (invoked Logout linux_session)) = Inl OSError
   \<and> logout linux_session
       = (Inr (Some False), snd (pre_closure (kind linux_session) (invoked Logout linux_session)))
   \<and> close_calls (snd (pre_closure (kind linux_session) (invoked Logout linux_session)))
       = close_calls linux_session"
proof -
  have f: "fst (pre_closure (kind linux_session) (invoked Logout linux_session)) = Inl OSError"
    by (simp add: linux_session_eval pre_closure_def prog_defs channel_defs device_defs
      refusing_host_def)
  then have h: "pre_closure (kind linux_session) (invoked Logout linux_session)
      = (Inl OSError, snd (pre_closure (kind linux_session) (invoked Logout linux_session)))"
    by (metis prod.collapse)
  show ?thesis
    using f logout_dialogue_exception[OF h] by blast
qed

section \<open>A failed escalation\<close>

lemma connect_calls: "calls (snd (connect u p d)) = calls d @ [Connect]"
  by (auto simp: connect_def Device_connect_def invoked_def try_except_def thn_def bnd_def ret_def
      SSHClient_connect_def split: option.splits)

lemma login_calls: "calls (snd (login d)) = calls d @ [Login]"
proof -
  have "preserves calls Device_login" "preserves calls DeviceCiscoIOS_login"
    by (auto simp: Device_login_def DeviceCiscoIOS_login_def)
  moreover have "calls (snd (DeviceCiscoWLC_login s)) = calls s" for s
    unfolding DeviceCiscoWLC_login_def
    by (rule preservesD) (auto split: option.splits)
  ultimately show ?thesis
    by (cases "kind d") (simp_all add: login_def invoked_def preservesD)
qed

lemma superuser_calls: "calls (snd (superuser pw d)) = calls d @ [Superuser]"
proof -
  have "preserves calls (Device_superuser pw)" "preserves calls (DeviceCiscoIOS_superuser pw)"
    "preserves calls (DeviceLinux_superuser pw)"
    by (auto simp: Device_superuser_def DeviceCiscoIOS_superuser_def DeviceLinux_superuser_def)
  then show ?thesis
    by (cases "kind d") (simp_all add: superuser_def invoked_def preservesD)
qed

text \<open>
  Claim C2, as amended. For every target for which escalation is requested and the
  escalate step returns \<^verbatim>\<open>False\<close>, the turn ends at the \<^verbatim>\<open>continue\<close>: the log gets the
  lines of the connection and of the failed escalation, nothing is written to the
  output, the methods invoked on the device are \<^verbatim>\<open>connect\<close>, \<^verbatim>\<open>login\<close> and \<^verbatim>\<open>superuser\<close>
  only (neither \<^verbatim>\<open>run\<close> nor \<^verbatim>\<open>logout\<close>), and the loop goes on with the next target.
\<close>

theorem escalation_failure_skips_target:
  assumes "superuserNeeded a"
    and "connect (user a) (act_password a) (createDevice h (deviceType a) (host env)) = (Inr True, d1)"
    and "login d1 = (Inr True, d2)"
    and "superuser (superuserPassword a) d2 = (Inr False, d3)"
  shows "visit a h env w =
           (Inr (), w\<lparr>aDevice := Some d3,
                      log := log w @ [''Connected to '' @ h, ''Unable to superuser at '' @ h]\<rparr>)
         \<and> out (snd (visit a h env w)) = out w
         \<and> calls d3 = [Connect, Login, Superuser]
         \<and> for_targets a ((h, env) # vs) w = for_targets a vs (snd (visit a h env w))"
proof -
  have v: "visit a h env w =
           (Inr (), w\<lparr>aDevice := Some d3,
                      log := log w @ [''Connected to '' @ h, ''Unable to superuser at '' @ h]\<rparr>)"
    using assms by (simp add: visit_def on_aDevice_def bnd_def thn_def writeLogFile_def)
  have "calls d3 = [Connect, Login, Superuser]"
    using connect_calls[of "user a" "act_password a" "createDevice h (deviceType a) (host env)"]
      login_calls[of d1] superuser_calls[of "superuserPassword a" d2] assms
    by (simp add: createDevice_def new_device_def)
  moreover have "for_targets a ((h, env) # vs) w = for_targets a vs (snd (visit a h env w))"
    by (simp add: v thn_def bnd_def)
  ultimately show ?thesis using v by simp
qed

text \<open>
  Claim C2, as stated, fails. A \<^verbatim>\<open>linux\<close> target that never shows \<^verbatim>\<open>Password:\<close> makes the
  requested escalation fail; the turn ends normally and \<^verbatim>\<open>logout\<close> was not invoked on
  the device.
\<close>

theorem escalation_failure_no_logout:
  "superuserNeeded su_activity
   \<and> fst (superuser ''toor'' (snd (login (snd (connect ''admin'' ''secret''
            (createDevice ''10.0.0.2'' ''linux'' silent_host)))))) = Inr False
   \<and> fst (visit su_activity ''10.0.0.2'' silent_turn (init_world (\<lambda>path. True))) = Inr ()
   \<and> Logout \<notin> set (calls (the (aDevice
        (snd (visit su_activity ''10.0.0.2'' silent_turn (init_world (\<lambda>path. True)))))))"
  by (simp add: su_activity_def silent_turn_def silent_host_def prog_defs channel_defs device_defs activity_defs)


lemma su_step1:
  "connect (user su_activity) (act_password su_activity)
     (createDevice ''10.0.0.2'' (deviceType su_activity) (host silent_turn))
   = (Inr True, su_session1)"
  by (simp add: su_session1_def su_activity_def silent_turn_def silent_host_def prog_defs
      channel_defs device_defs)

lemma su_step2: "login su_session1 = (Inr True, su_session2)"
  by (simp add: su_session2_def su_session1_def silent_host_def prog_defs channel_defs
      device_defs)

lemma su_step3:
  "superuser (superuserPassword su_activity) su_session2 = (Inr False, su_session3)"
  by (simp add: su_session3_def su_session2_def su_session1_def su_activity_def
      silent_host_def prog_defs channel_defs device_defs)

theorem escalation_failure_skips_target_witness:
  "superuserNeeded su_activity
   \<and> superuser (superuserPassword su_activity) su_session2 = (Inr False, su_session3)
   \<and> visit su_activity ''10.0.0.2'' silent_turn (init_world (\<lambda>path. True)) =
       (Inr (), (init_world (\<lambda>path. True))
          \<lparr>aDevice := Some su_session3,
           log := log (init_world (\<lambda>path. True))
                  @ [''Connected to '' @ ''10.0.0.2'', ''Unable to superuser at '' @ ''10.0.0.2'']\<rparr>)
   \<and> calls su_session3 = [Connect, Login, Superuser]"
proof -
  have n: "superuserNeeded su_activity"
    by (simp add: su_activity_def)
  show ?thesis
    using n su_step3
      escalation_failure_skips_target[OF n su_step1 su_step2 su_step3,
        of "init_world (\<lambda>path. True)" "[]"]
    by blast
qed

section \<open>Escalation on IOS\<close>

lemma find_from_sublist:
  "0 \<le> i \<Longrightarrow> find_from i sub s \<noteq> -1 \<longleftrightarrow> sublist sub s"
proof (induction s arbitrary: i)
  case Nil
  then show ?case by auto
next
  case (Cons c cs)
  have "find_from (i + 1) sub cs \<noteq> -1 \<longleftrightarrow> sublist sub cs"
    using Cons.prems by (intro Cons.IH) simp
  with Cons.prems show ?case
    by (auto simp: sublist_Cons_right)
qed

lemma find_sublist: "find s sub \<noteq> -1 \<longleftrightarrow> sublist sub s"
  unfolding find_def by (rule find_from_sublist) simp

lemma drain_trace [simp]: "preserves trace (drain b v)"
  by (auto simp: preserves_def drain_def next_drain_def split: list.splits prod.splits option.splits)

lemma send_trace: "trace (snd (RemoteShell_send t d)) = (if RemoteShell d then trace d @ [Sent t] else trace d)"
  by (auto simp: RemoteShell_send_def split: list.splits send_result.splits)

lemma drain_needs_shell: "drain b v d = (Inr x, d') \<Longrightarrow> RemoteShell d \<and> RemoteShell d'"
  by (auto simp: drain_def next_drain_def split: if_splits list.splits prod.splits option.splits)

lemma send_shell: "RemoteShell (snd (RemoteShell_send t d)) = RemoteShell d"
  by (auto simp: RemoteShell_send_def split: list.splits send_result.splits)

lemma enable_dialogue_trace:
  assumes "enable_dialogue d = (Inr data, d1)"
  shows "trace d1 = trace d @ [Sent ''enable \<newline>'']"
proof -
  from assms obtain da db x where
    a: "drain discard () d = (Inr (), da)" and
    b: "RemoteShell_send ''enable \<newline>'' da = (Inr x, db)" and
    c: "drain keep [] db = (Inr data, d1)"
    by (auto simp: enable_dialogue_def thn_def bnd_def split: prod.splits sum.splits)
  have "trace da = trace d"
    using preservesD[OF drain_trace, of discard "()" d] a by simp
  moreover have "RemoteShell da" using a by (auto dest: drain_needs_shell)
  then have "trace db = trace da @ [Sent ''enable \<newline>'']"
    using send_trace[of "''enable \<newline>''" da] b by simp
  moreover have "trace d1 = trace db"
    using preservesD[OF drain_trace, of keep "[]" db] c by simp
  ultimately show ?thesis by simp
qed

lemma bnd_assoc: "bnd (bnd m f) g = bnd m (\<lambda>x. bnd (f x) g)"
  by (auto simp: bnd_def fun_eq_iff split: prod.splits sum.splits)

lemma ios_superuser_shape:
  "DeviceCiscoIOS_superuser pw =
     try_except [SSHException]
       (bnd enable_dialogue
          (\<lambda>data. if find data ''Password:'' \<noteq> -1
                  then bnd (password_dialogue pw)
                         (\<lambda>data. if find data ''#'' \<noteq> -1 then ret True else ret False)
                  else ret False))
       (ret False)"
  by (simp add: DeviceCiscoIOS_superuser_def enable_dialogue_def password_dialogue_def
      thn_def bnd_assoc cong: if_cong)

text \<open>
  Claim C6. On a \<^verbatim>\<open>DeviceCiscoIOS\<close> session \<^verbatim>\<open>superuser\<close> returns \<^verbatim>\<open>True\<close> only if the text
  drained after \<^verbatim>\<open>enable\<close> contains \<^verbatim>\<open>Password:\<close> and the text drained after the password
  contains \<^verbatim>\<open>#\<close>. When the text drained after \<^verbatim>\<open>enable\<close> lacks \<^verbatim>\<open>Password:\<close>, it returns
  \<^verbatim>\<open>False\<close> in the state that drain left, and \<^verbatim>\<open>enable\<close> is all it has sent: the
  password was not.
\<close>

theorem ios_escalation_prompts:
  assumes "kind d = DeviceCiscoIOS"
  shows "(superuser pw d = (Inr True, d') \<longrightarrow>
           (\<exists>data1 d1 data2.
              enable_dialogue (invoked Superuser d) = (Inr data1, d1)
              \<and> sublist ''Password:'' data1
              \<and> password_dialogue pw d1 = (Inr data2, d')
              \<and> sublist ''#'' data2))
       \<and> (enable_dialogue (invoked Superuser d) = (Inr data, mid) \<and> \<not> sublist ''Password:'' data
            \<longrightarrow> superuser pw d = (Inr False, mid)
                \<and> trace mid = trace d @ [Sent ''enable \<newline>''])"
proof (intro conjI impI)
  assume t: "superuser pw d = (Inr True, d')"
  then show "\<exists>data1 d1 data2.
              enable_dialogue (invoked Superuser d) = (Inr data1, d1)
              \<and> sublist ''Password:'' data1
              \<and> password_dialogue pw d1 = (Inr data2, d')
              \<and> sublist ''#'' data2"
    using assms
    by (auto simp: superuser_def ios_superuser_shape try_except_def bnd_def ret_def
        find_sublist[symmetric] split: prod.splits sum.splits if_splits)
next
  assume h: "enable_dialogue (invoked Superuser d) = (Inr data, mid) \<and> \<not> sublist ''Password:'' data"
  then show "superuser pw d = (Inr False, mid)"
    using assms
    by (auto simp: superuser_def ios_superuser_shape try_except_def bnd_def ret_def
        find_sublist[symmetric])
  from h show "trace mid = trace d @ [Sent ''enable \<newline>'']"
    using enable_dialogue_trace[of "invoked Superuser d" data mid] by (simp add: invoked_def)
qed


lemma ios_prompting_kind: "kind (ios_session prompting_host) = DeviceCiscoIOS"
  by (simp add: ios_session_def prompting_host_def prog_defs channel_defs device_defs)

lemma ios_prompting_result:
  "fst (superuser ''cisco'' (ios_session prompting_host)) = Inr True"
  by (simp add: ios_session_def prompting_host_def prog_defs channel_defs device_defs)

lemma ios_silent_kind: "kind (ios_session silent_host) = DeviceCiscoIOS"
  by (simp add: ios_session_def silent_host_def prog_defs channel_defs device_defs)

lemma ios_silent_enable:
  "fst (enable_dialogue (invoked Superuser (ios_session silent_host))) = Inr []"
  by (simp add: enable_dialogue_def ios_session_def silent_host_def prog_defs channel_defs
      device_defs)

theorem ios_escalation_prompts_witness:
  "kind (ios_session prompting_host) = DeviceCiscoIOS
   \<and> fst (superuser ''cisco'' (ios_session prompting_host)) = Inr True
   \<and> (\<exists>data1 d1 data2.
         enable_dialogue (invoked Superuser (ios_session prompting_host)) = (Inr data1, d1)
         \<and> sublist ''Password:'' data1
         \<and> password_dialogue ''cisco'' d1
             = (Inr data2, snd (superuser ''cisco'' (ios_session prompting_host)))
         \<and> sublist ''#'' data2)
   \<and> kind (ios_session silent_host) = DeviceCiscoIOS
   \<and> fst (enable_dialogue (invoked Superuser (ios_session silent_host))) = Inr []
   \<and> \<not> sublist ''Password:'' []
   \<and> superuser ''cisco'' (ios_session silent_host)
       = (Inr False, snd (enable_dialogue (invoked Superuser (ios_session silent_host))))"
proof -
  have a: "superuser ''cisco'' (ios_session prompting_host)
      = (Inr True, snd (superuser ''cisco'' (ios_session prompting_host)))"
    using ios_prompting_result by (metis prod.collapse)
  have b: "enable_dialogue (invoked Superuser (ios_session silent_host))
      = (Inr [], snd (enable_dialogue (invoked Superuser (ios_session silent_host))))"
    using ios_silent_enable by (metis prod.collapse)
  have c: "\<not> sublist ''Password:'' []"
    by simp
  show ?thesis
    using a b c ios_prompting_kind ios_prompting_result ios_silent_kind ios_silent_enable
      ios_escalation_prompts[OF ios_prompting_kind, where pw = "''cisco''"
        and d' = "snd (superuser ''cisco'' (ios_session prompting_host))"]
      ios_escalation_prompts[OF ios_silent_kind, where pw = "''cisco''" and data = "[]"
        and mid = "snd (enable_dialogue (invoked Superuser (ios_session silent_host)))"]
    by blast
qed

section \<open>The command runner\<close>

lemma send_step:
  assumes "RemoteShell d"
  shows "RemoteShell_send t d =
    ((case sends (peer d) of [] \<Rightarrow> Inr (length t) | Accepted n # _ \<Rightarrow> Inr n
        | SendRaises e # _ \<Rightarrow> Inl (exn_of e)), sent_state t d)"
  using assms
  by (auto simp: RemoteShell_send_def sent_state_def split: list.splits send_result.splits)

lemma drain_write_step:
  assumes "RemoteShell d"
  shows "drain_write wr (d, f) =
    (case recv_loop wr (next_chunks (drains (peer d))) f of
       (None, f') \<Rightarrow> (Inr (), (drained_state d, f'))
     | (Some e, f') \<Rightarrow> (Inl e, (drained_state d, f')))"
  using assms
  by (auto simp: drain_write_def next_drain_def drained_state_def next_chunks_def
      split: list.splits prod.splits option.splits)

lemma recv_loop_ok: "\<not> list_ex fails cs \<Longrightarrow> fst (recv_loop wr cs f) = None"
  by (induction wr cs f rule: recv_loop.induct) auto

lemma exn_of_caught: "exn_of e = SSHException \<or> exn_of e = OSError"
  by (cases e) auto

lemma recv_loop_bad:
  "list_ex fails cs \<Longrightarrow>
   fst (recv_loop wr cs f) \<in> {Some SSHException, Some OSError, Some UnicodeDecodeError}"
  using exn_of_caught
  by (induction wr cs f rule: recv_loop.induct) auto

lemma sent_state_simps [simp]:
  "RemoteShell (sent_state t d) = RemoteShell d"
  "sends (peer (sent_state t d)) = tl (sends (peer d))"
  "drains (peer (sent_state t d)) = drains (peer d)"
  by (simp_all add: sent_state_def)

lemma drained_state_simps [simp]:
  "RemoteShell (drained_state d) = RemoteShell d"
  "sends (peer (drained_state d)) = sends (peer d)"
  "drains (peer (drained_state d)) = tl (drains (peer d))"
  by (simp_all add: drained_state_def)

lemma loop_failure_0 [simp]: "\<not> loop_failure 0 ss ds"
  by (simp add: loop_failure_def)

lemma loop_failure_Suc:
  "loop_failure (Suc n) ss ds \<longleftrightarrow>
     (case ss of [] \<Rightarrow> False | s # _ \<Rightarrow> bytes_accepted s = 0)
     \<or> list_ex fails (next_chunks ds)
     \<or> loop_failure n (tl ss) (tl ds)"
  by (cases ss; cases ds) (auto simp: loop_failure_def next_chunks_def)

lemma for_commands_result:
  assumes "RemoteShell d"
  shows "(fst (for_commands wr cmds (d, f)) = Inr ()
            \<and> \<not> loop_failure (length cmds) (sends (peer d)) (drains (peer d)))
         \<or> (\<exists>e\<in>caught. fst (for_commands wr cmds (d, f)) = Inl e
            \<and> loop_failure (length cmds) (sends (peer d)) (drains (peer d)))"
  using assms
proof (induction cmds arbitrary: d f)
  case Nil
  then show ?case by (simp add: ret_def)
next
  case (Cons cmd cmds)
  let ?d1 = "sent_state (cmd @ nl) d"
  let ?cs = "next_chunks (drains (peer d))"
  note sh = Cons.prems
  have ih: "\<And>f'. (fst (for_commands wr cmds (drained_state ?d1, f')) = Inr ()
            \<and> \<not> loop_failure (length cmds) (tl (sends (peer d))) (tl (drains (peer d))))
         \<or> (\<exists>e\<in>caught. fst (for_commands wr cmds (drained_state ?d1, f')) = Inl e
            \<and> loop_failure (length cmds) (tl (sends (peer d))) (tl (drains (peer d))))"
    using Cons.IH[of "drained_state ?d1"] sh by simp
  have d1: "RemoteShell ?d1" using sh by simp
  show ?case
  proof (cases "sends (peer d)")
    case Nil
    show ?thesis
    proof (cases "list_ex fails ?cs")
      case True
      from recv_loop_bad[OF True, of wr f] obtain e f' where
        r: "recv_loop wr ?cs f = (Some e, f')" and e: "e \<in> caught"
        by (cases "recv_loop wr ?cs f") (auto simp: caught_def)
      show ?thesis
        using Nil True r e sh d1
        by (simp add: bnd_def thn_def on_device_def send_step drain_write_step
            loop_failure_Suc)
    next
      case False
      from recv_loop_ok[OF False, of wr f] obtain f' where
        r: "recv_loop wr ?cs f = (None, f')"
        by (cases "recv_loop wr ?cs f") auto
      show ?thesis
        using Nil False r sh d1 ih[of f']
        by (simp add: bnd_def thn_def on_device_def send_step drain_write_step
            loop_failure_Suc)
    qed
  next
    case (Cons s ss)
    show ?thesis
    proof (cases s)
      case (SendRaises e)
      then show ?thesis
        using Cons sh exn_of_caught[of e]
        by (auto simp: bnd_def thn_def on_device_def send_step loop_failure_Suc caught_def)
    next
      case (Accepted n)
      show ?thesis
      proof (cases "n = 0")
        case True
        then show ?thesis
          using Cons Accepted sh
          by (simp add: bnd_def thn_def on_device_def send_step loop_failure_Suc caught_def
              raise_def)
      next
        case n: False
        show ?thesis
        proof (cases "list_ex fails ?cs")
          case True
          from recv_loop_bad[OF True, of wr f] obtain e f' where
            r: "recv_loop wr ?cs f = (Some e, f')" and e: "e \<in> caught"
            by (cases "recv_loop wr ?cs f") (auto simp: caught_def)
          show ?thesis
            using Cons Accepted n True r e sh d1
            by (simp add: bnd_def thn_def on_device_def send_step drain_write_step
                loop_failure_Suc)
        next
          case False
          from recv_loop_ok[OF False, of wr f] obtain f' where
            r: "recv_loop wr ?cs f = (None, f')"
            by (cases "recv_loop wr ?cs f") auto
          show ?thesis
            using Cons Accepted n False r sh d1 ih[of f']
            by (simp add: bnd_def thn_def on_device_def send_step drain_write_step
                loop_failure_Suc)
        qed
      qed
    qed
  qed
qed

lemma script_failure_split:
  "script_failure n r \<longleftrightarrow>
     list_ex fails (next_chunks (drains r)) \<or> loop_failure n (sends r) (tl (drains r))"
  by (cases "drains r") (auto simp: script_failure_def loop_failure_def next_chunks_def)

lemma Device_run_result:
  assumes "RemoteShell d"
  shows "fst (Device_run cmds wr (d, f)) = Inr (\<not> script_failure (length cmds) (peer d))"
proof (cases "list_ex fails (next_chunks (drains (peer d)))")
  case True
  from recv_loop_bad[OF True, of wr f] obtain e f' where
    r: "recv_loop wr (next_chunks (drains (peer d))) f = (Some e, f')" and e: "e \<in> caught"
    by (cases "recv_loop wr (next_chunks (drains (peer d))) f") (auto simp: caught_def)
  show ?thesis
    using True r e assms
    by (auto simp: Device_run_def try_except_def thn_def bnd_def ret_def drain_write_step
        script_failure_split caught_def)
next
  case False
  from recv_loop_ok[OF False, of wr f] obtain f' where
    r: "recv_loop wr (next_chunks (drains (peer d))) f = (None, f')"
    by (cases "recv_loop wr (next_chunks (drains (peer d))) f") auto
  have sh: "RemoteShell (drained_state d)" using assms by simp
  from for_commands_result[OF sh, of wr cmds f']
  show ?thesis
    using False r assms
    by (cases "for_commands wr cmds (drained_state d, f')")
       (auto simp: Device_run_def try_except_def thn_def bnd_def ret_def drain_write_step
        script_failure_split caught_def)
qed

lemma growsD: "grows m \<Longrightarrow> prefix f (snd (snd (m (d, f))))"
  by (auto simp: grows_def)

lemma grows_ret [simp]: "grows (ret x)"
  by (simp add: grows_def ret_def)

lemma grows_raise [simp]: "grows (raise e)"
  by (simp add: grows_def raise_def)

lemma grows_bnd [intro!]:
  assumes "grows m" "\<And>x. grows (g x)"
  shows "grows (bnd m g)"
  unfolding grows_def
proof
  fix s
  obtain r s' where m: "m s = (r, s')" by (cases "m s")
  have "prefix (snd s) (snd (snd (m s)))" using assms(1) by (cases s) (simp add: grows_def)
  then have a: "prefix (snd s) (snd s')" using m by simp
  show "prefix (snd s) (snd (snd (bnd m g s)))"
  proof (cases r)
    case (Inl e)
    then show ?thesis using m a by (simp add: bnd_def)
  next
    case (Inr x)
    have "prefix (snd s') (snd (snd (g x s')))"
      using assms(2)[of x] by (cases s') (simp add: grows_def)
    then show ?thesis using Inr m a by (auto simp: bnd_def intro: prefix_order.trans)
  qed
qed

lemma grows_thn [intro!]: "grows m \<Longrightarrow> grows n \<Longrightarrow> grows (thn m n)"
  unfolding thn_def by (rule grows_bnd)

lemma grows_try [intro!]:
  assumes "grows m" "grows h"
  shows "grows (try_except cs m h)"
  unfolding grows_def
proof
  fix s
  obtain r s' where m: "m s = (r, s')" by (cases "m s")
  have "prefix (snd s) (snd (snd (m s)))" using assms(1) by (cases s) (simp add: grows_def)
  then have a: "prefix (snd s) (snd s')" using m by simp
  have b: "prefix (snd s') (snd (snd (h s')))" using assms(2) by (cases s') (simp add: grows_def)
  show "prefix (snd s) (snd (snd (try_except cs m h s)))"
    using m a b by (cases r) (auto simp: try_except_def intro: prefix_order.trans)
qed

lemma grows_on_device [simp]: "grows (on_device m)"
  by (auto simp: grows_def on_device_def split: prod.splits)

lemma recv_loop_grows: "prefix f (snd (recv_loop (\<lambda>t acc. acc @ [g t]) cs f))"
proof (induction cs arbitrary: f)
  case Nil
  then show ?case by simp
next
  case (Cons c cs)
  show ?case
  proof (cases c)
    case (Data t)
    have "prefix (f @ [g t]) (snd (recv_loop (\<lambda>t acc. acc @ [g t]) cs (f @ [g t])))"
      by (rule Cons.IH)
    then show ?thesis using Data by (auto dest: append_prefixD)
  qed simp_all
qed

lemma grows_drain_write [simp]: "grows (drain_write (\<lambda>t acc. acc @ [g t]))"
  unfolding grows_def
proof
  fix s :: "device \<times> 'a list"
  obtain d f where s: "s = (d, f)" by (cases s)
  obtain cs d' where n: "next_drain d = (cs, d')" by (cases "next_drain d")
  obtain r f' where l: "recv_loop (\<lambda>t acc. acc @ [g t]) cs f = (r, f')"
    by (cases "recv_loop (\<lambda>t acc. acc @ [g t]) cs f")
  have "prefix f f'" using recv_loop_grows[of f g cs] l by simp
  then show "prefix (snd s) (snd (snd (drain_write (\<lambda>t acc. acc @ [g t]) s)))"
    using s n l by (cases r) (simp_all add: drain_write_def)
qed

lemma grows_if [intro!]: "grows m \<Longrightarrow> grows n \<Longrightarrow> grows (if c then m else n)"
  by simp

lemma for_commands_fun: "for_commands wr (cmd # cmds) =
     bnd (on_device (RemoteShell_send (cmd @ nl)))
       (\<lambda>n. if n = 0 then raise OSError
            else thn (drain_write wr) (for_commands wr cmds))"
  by (rule ext) simp

lemma for_commands_nil: "for_commands wr [] = ret ()"
  by (rule ext) simp

lemma grows_for_commands: "grows (for_commands (\<lambda>t acc. acc @ [g t]) cmds)"
  by (induction cmds) (auto simp: for_commands_fun for_commands_nil simp del: for_commands.simps)

lemma grows_Device_run: "grows (Device_run cmds (\<lambda>t acc. acc @ [g t]))"
  unfolding Device_run_def by (auto intro: grows_for_commands)

lemma for_commands_append:
  "for_commands wr (xs @ ys) = thn (for_commands wr xs) (for_commands wr ys)"
proof (induction xs)
  case Nil
  show ?case by (rule ext) (simp add: thn_def bnd_def ret_def)
next
  case (Cons x xs)
  show ?case
    unfolding append_Cons for_commands_fun Cons.IH
    by (rule ext) (auto simp: thn_def bnd_def raise_def split: prod.splits sum.splits)
qed

lemma Device_run_retains:
  assumes "Device_run cmds wr (d, f) = (Inr True, (d1, f1))"
  shows "snd (Device_run (cmds @ rest) wr (d, f))
           = snd (for_commands wr rest (d1, f1))"
  using assms
  by (auto simp: Device_run_def for_commands_append try_except_def thn_def bnd_def ret_def
      split: prod.splits sum.splits if_splits)

section \<open>One turn of the loop\<close>

lemma sink_opened_fields [simp]:
  "aDevice (sink_opened a h env w) = aDevice w"
  "out (sink_opened a h env w) = out w"
  "log (sink_opened a h env w) = log w"
  "closed (sink_opened a h env w) = closed w"
  "creatable (sink_opened a h env w) = creatable w"
  by (simp_all add: sink_opened_def)

lemma open_step:
  "(if \<not> singleFile a then openOutputFile a (timestampedFilename h (clock env)) else ret ()) w =
     (if own_file a \<and> \<not> creatable w (target_path a h env) then (Inl OSError, w)
      else (Inr (), sink_opened a h env w))"
  by (simp add: openOutputFile_def ret_def own_file_def target_path_def sink_opened_def Let_def)

lemma close_step:
  "(if \<not> singleFile a then closeOutputFile a else ret ()) w =
     (Inr (), w\<lparr>closed := closed w @ (if own_file a then [outputFile w] else [])\<rparr>)"
  by (simp add: closeOutputFile_def ret_def own_file_def)

lemma serve_open_fails:
  assumes "own_file a \<and> \<not> creatable w (target_path a h env)"
  shows "serve a h env w = (Inl OSError, w)"
  using assms by (simp add: serve_def thn_def bnd_def[of "If _ _ _"] open_step)

lemma serve_prologue:
  assumes dev: "aDevice w = Some d"
    and ok: "\<not> (own_file a \<and> \<not> creatable w (target_path a h env))"
    and r: "run (commands a) (\<lambda>t written. written @ [(outputFile (sink_opened a h env w), t)])
              (d, out w @ [(outputFile (sink_opened a h env w), opening_delimiter h)])
            = (rb, (d2, o2))"
  shows "serve a h env w =
     bnd (\<lambda>w'. (rb, w'))
      (\<lambda>r.
     thn (if \<not> r then writeLogFile ''ERROR while running the commmands'' else ret ())
    (bnd (on_aDevice logout)
      (\<lambda>lo.
     thn (if falsy lo then writeLogFile ''ERROR while logging out'' else ret ())
    (thn (writeOutputFile closing_delimiter)
    (thn (if \<not> singleFile a then closeOutputFile a else ret ())
    (writeLogFile (''Finished commands at '' @ h)))))))
      ((sink_opened a h env w)\<lparr>aDevice := Some d2, out := o2\<rparr>)"
proof -
  define w1 where "w1 = sink_opened a h env w"
  have op: "(if \<not> singleFile a then openOutputFile a (timestampedFilename h (clock env)) else ret ()) w
      = (Inr (), w1)"
    using ok by (simp add: open_step w1_def)
  have dev1: "aDevice w1 = Some d" "out w1 = out w"
    using dev by (simp_all add: w1_def)
  have rc: "run_commands (commands a)
        (w1\<lparr>out := out w1 @ [(outputFile w1, opening_delimiter h)]\<rparr>)
      = (rb, w1\<lparr>aDevice := Some d2, out := o2\<rparr>)"
    using r dev1 by (simp add: run_commands_def w1_def)
  show ?thesis
    unfolding serve_def thn_def w1_def[symmetric]
    by (simp add: bnd_def op[unfolded thn_def] writeOutputFile_def rc)
qed

lemma serve_run_raises:
  assumes "aDevice w = Some d"
    and "\<not> (own_file a \<and> \<not> creatable w (target_path a h env))"
    and "run (commands a) (\<lambda>t written. written @ [(outputFile (sink_opened a h env w), t)])
              (d, out w @ [(outputFile (sink_opened a h env w), opening_delimiter h)])
            = (Inl e, (d2, o2))"
  shows "serve a h env w = (Inl e, (sink_opened a h env w)\<lparr>aDevice := Some d2, out := o2\<rparr>)"
  unfolding serve_prologue[OF assms] by (simp add: bnd_def)

lemma serve_logout_raises:
  assumes "aDevice w = Some d"
    and "\<not> (own_file a \<and> \<not> creatable w (target_path a h env))"
    and "run (commands a) (\<lambda>t written. written @ [(outputFile (sink_opened a h env w), t)])
              (d, out w @ [(outputFile (sink_opened a h env w), opening_delimiter h)])
            = (Inr b, (d2, o2))"
    and l: "logout d2 = (Inl e, d3)"
  shows "serve a h env w =
     (Inl e, (sink_opened a h env w)
        \<lparr>aDevice := Some d3, out := o2,
         log := log w @ (if b then [] else [''ERROR while running the commmands''])\<rparr>)"
  unfolding serve_prologue[OF assms(1-3)]
  using l by (simp add: bnd_def thn_def writeLogFile_def ret_def on_aDevice_def)

lemma serve_completes:
  assumes "aDevice w = Some d"
    and "\<not> (own_file a \<and> \<not> creatable w (target_path a h env))"
    and "run (commands a) (\<lambda>t written. written @ [(outputFile (sink_opened a h env w), t)])
              (d, out w @ [(outputFile (sink_opened a h env w), opening_delimiter h)])
            = (Inr b, (d2, o2))"
    and l: "logout d2 = (Inr lo, d3)"
  shows "serve a h env w =
     (Inr (), (sink_opened a h env w)
        \<lparr>aDevice := Some d3,
         out := o2 @ [(outputFile (sink_opened a h env w), closing_delimiter)],
         log := log w @ (if b then [] else [''ERROR while running the commmands''])
                @ (if falsy lo then [''ERROR while logging out''] else [])
                @ [''Finished commands at '' @ h],
         closed := closed w
                @ (if own_file a then [outputFile (sink_opened a h env w)] else [])\<rparr>)"
  unfolding serve_prologue[OF assms(1-3)]
  using l
  by (simp add: bnd_def thn_def writeLogFile_def ret_def on_aDevice_def writeOutputFile_def
      closeOutputFile_def own_file_def)

lemma send_frame:
  assumes "\<And>d p t. g (d\<lparr>peer := p, trace := t\<rparr>) = g d"
  shows "preserves g (RemoteShell_send txt)"
  unfolding preserves_def
proof
  fix s
  show "g (snd (RemoteShell_send txt s)) = g s"
  proof (cases "RemoteShell s")
    case True
    then show ?thesis by (simp add: send_step sent_state_def assms)
  next
    case False
    then show ?thesis by (simp add: RemoteShell_send_def)
  qed
qed

lemma send_kind [simp]: "preserves kind (RemoteShell_send t)"
  by (rule send_frame) simp

lemma send_shell_kept [simp]: "preserves RemoteShell (RemoteShell_send t)"
  by (rule send_frame) simp

lemma drain_write_frame:
  assumes "\<And>d p. g (d\<lparr>peer := p\<rparr>) = g d"
  shows "preserves (g \<circ> fst) (drain_write wr)"
  using assms
  by (auto simp: preserves_def drain_write_def next_drain_def
      split: list.splits prod.splits option.splits)

lemma on_device_frame: "preserves g m \<Longrightarrow> preserves (g \<circ> fst) (on_device m)"
  by (auto simp: preserves_def on_device_def split: prod.splits) (metis snd_conv)

lemma for_commands_frame:
  assumes "\<And>d p t. g (d\<lparr>peer := p, trace := t\<rparr>) = g d" "\<And>d p. g (d\<lparr>peer := p\<rparr>) = g d"
  shows "preserves (g \<circ> fst) (for_commands wr cmds)"
proof (induction cmds)
  case Nil
  show ?case by (simp add: for_commands_nil)
next
  case (Cons c cmds)
  show ?case
    unfolding for_commands_fun
    by (intro preserves_bnd preserves_if preserves_thn preserves_raise Cons.IH
        on_device_frame send_frame drain_write_frame assms)
qed

lemma Device_run_frame:
  assumes "\<And>d p t. g (d\<lparr>peer := p, trace := t\<rparr>) = g d" "\<And>d p. g (d\<lparr>peer := p\<rparr>) = g d"
  shows "g (fst (snd (Device_run cmds wr (d, f)))) = g d"
proof -
  have "preserves (g \<circ> fst) (Device_run cmds wr)"
    unfolding Device_run_def
    by (intro preserves_try preserves_thn preserves_ret drain_write_frame for_commands_frame assms)
  from preservesD[OF this, of "(d, f)"] show ?thesis by simp
qed

lemma run_device:
  "kind (fst (snd (run cmds wr (d, f)))) = kind d"
  "RemoteShell (fst (snd (run cmds wr (d, f)))) = RemoteShell d"
  "calls (fst (snd (run cmds wr (d, f)))) = calls d @ [Run]"
  by (simp_all add: run_def Device_run_frame invoked_def)

lemma run_result:
  assumes "RemoteShell d"
  shows "fst (run cmds wr (d, f)) = Inr (\<not> script_failure (length cmds) (peer d))"
  using Device_run_result[of "invoked Run d" cmds wr f] assms
  by (simp add: run_def invoked_def)

lemma logout_calls: "calls (snd (logout d)) = calls d @ [Logout]"
proof -
  have g: "preserves calls Device_logout"
    by (auto simp: Device_logout_def)
  then have "preserves calls DeviceCiscoIOS_logout" "preserves calls DeviceCiscoWLC_logout"
    "preserves calls DeviceLinux_logout"
    by (auto simp: DeviceCiscoIOS_logout_def DeviceCiscoWLC_logout_def DeviceLinux_logout_def)
  with g show ?thesis
    by (cases "kind d") (simp_all add: logout_def invoked_def preservesD)
qed

lemma Device_logout_returns:
  assumes "RemoteShell d"
  shows "\<exists>lo. fst (Device_logout d) = Inr lo"
  using assms exn_of_caught
  by (auto simp: Device_logout_def try_except_def thn_def bnd_def ret_def RemoteShell_close_def
      SSHClient_close_def split: option.splits)

lemma logout_returns:
  assumes "RemoteShell d" "kind d = Device \<or> kind d = DeviceLinux"
  shows "\<exists>lo. fst (logout d) = Inr lo"
proof -
  have sh: "RemoteShell (invoked Logout d)" using assms by (simp add: invoked_def)
  show ?thesis
  proof (cases "kind d = Device")
    case True
    then show ?thesis using Device_logout_returns[OF sh] by (simp add: logout_def)
  next
    case False
    then have k: "kind d = DeviceLinux" using assms by simp
    obtain r d1 where s: "RemoteShell_send ''logout \<newline>'' (invoked Logout d) = (r, d1)"
      by (metis prod.collapse)
    have sh1: "RemoteShell d1"
      using preservesD[OF send_shell_kept, of "''logout \<newline>''" "invoked Logout d"] s sh by simp
    have r: "r = Inl SSHException \<or> r = Inl OSError \<or> (\<exists>n. r = Inr n)"
      using s sh exn_of_caught
      by (auto simp: RemoteShell_send_def split: list.splits send_result.splits)
    from Device_logout_returns[OF sh1] obtain lo where "fst (Device_logout d1) = Inr lo" ..
    then show ?thesis
      using k s r
      by (cases "Device_logout d1")
         (auto simp: logout_def DeviceLinux_logout_def try_except_def thn_def bnd_def ret_def)
  qed
qed

section \<open>The lines that close a target\<close>

lemma world_update_order:
  "w\<lparr>aDevice := x, log := l\<rparr> = w\<lparr>log := l, aDevice := x\<rparr>"
  by simp

lemma visit_outcome:
  "(\<exists>e. fst (visit a h env w) = Inl e \<and> fst (admission a (createDevice h (deviceType a) (host env))) = Inl e)
   \<or> (fst (admission a (createDevice h (deviceType a) (host env))) = Inr False
       \<and> fst (visit a h env w) = Inr ()
       \<and> finished_lines (log (snd (visit a h env w))) = finished_lines (log w)
       \<and> out (snd (visit a h env w)) = out w)
   \<or> (\<exists>w1 d. fst (admission a (createDevice h (deviceType a) (host env))) = Inr True
       \<and> aDevice w1 = Some d
       \<and> finished_lines (log w1) = finished_lines (log w)
       \<and> visit a h env w = serve a h env w1)"
proof -
  define d0 where "d0 = createDevice h (deviceType a) (host env)"
  obtain rc d1 where c: "connect (user a) (act_password a) d0 = (rc, d1)"
    by (metis prod.collapse)
  obtain rl d2 where l: "login d1 = (rl, d2)" by (metis prod.collapse)
  obtain rs d3 where s: "superuser (superuserPassword a) d2 = (rs, d3)" by (metis prod.collapse)
  note defs = visit_def admission_def d0_def[symmetric] on_aDevice_def bnd_def thn_def ret_def
    writeLogFile_def finished_lines_def finished_line_def
  show ?thesis
  proof (cases rc)
    case (Inl e)
    then show ?thesis using c by (simp add: defs)
  next
    case rc: (Inr cb)
    show ?thesis
    proof (cases cb)
      case False
      then show ?thesis using c rc by (simp add: defs)
    next
      case cb: True
      show ?thesis
      proof (cases rl)
        case (Inl e)
        then show ?thesis using c rc cb l by (simp add: defs)
      next
        case rl: (Inr lb)
        show ?thesis
        proof (cases lb)
          case False
          then show ?thesis using c rc cb l rl by (simp add: defs)
        next
          case lb: True
          show ?thesis
          proof (cases "superuserNeeded a")
            case False
            have "visit a h env w = serve a h env
                (w\<lparr>log := log w @ [''Connected to '' @ h], aDevice := Some d2\<rparr>)"
              using c rc cb l rl lb False by (simp add: defs world_update_order)
            moreover have "fst (admission a d0) = Inr True"
              using c rc cb l rl lb False by (simp add: defs)
            ultimately show ?thesis
              unfolding d0_def
              by (intro disjI2 exI[of _ "w\<lparr>log := log w @ [''Connected to '' @ h], aDevice := Some d2\<rparr>"]
                  exI[of _ d2]) (simp add: finished_lines_def finished_line_def)
          next
            case su: True
            show ?thesis
            proof (cases rs)
              case (Inl e)
              then show ?thesis using c rc cb l rl lb su s by (simp add: defs)
            next
              case rs: (Inr sb)
              show ?thesis
              proof (cases sb)
                case False
                then show ?thesis using c rc cb l rl lb su s rs by (simp add: defs)
              next
                case True
                have "visit a h env w = serve a h env
                    (w\<lparr>log := log w @ [''Connected to '' @ h, ''Superuser at '' @ h],
                       aDevice := Some d3\<rparr>)"
                  using c rc cb l rl lb su s rs True by (simp add: defs world_update_order)
                moreover have "fst (admission a d0) = Inr True"
                  using c rc cb l rl lb su s rs True by (simp add: defs)
                ultimately show ?thesis
                  unfolding d0_def
                  by (intro disjI2 exI[of _ "w\<lparr>log := log w @ [''Connected to '' @ h, ''Superuser at '' @ h],
                       aDevice := Some d3\<rparr>"]
                      exI[of _ d3]) (simp add: finished_lines_def finished_line_def)
              qed
            qed
          qed
        qed
      qed
    qed
  qed
qed

lemma serve_finished:
  assumes dev: "aDevice w = Some d" and ok: "fst (serve a h env w) = Inr ()"
  shows "finished_lines (log (snd (serve a h env w)))
           = finished_lines (log w) @ [''Finished commands at '' @ h]"
proof -
  have op: "\<not> (own_file a \<and> \<not> creatable w (target_path a h env))"
  proof
    assume c: "own_file a \<and> \<not> creatable w (target_path a h env)"
    from serve_open_fails[OF c] ok show False by simp
  qed
  obtain rb d2 o2 where
    r: "run (commands a) (\<lambda>t written. written @ [(outputFile (sink_opened a h env w), t)])
              (d, out w @ [(outputFile (sink_opened a h env w), opening_delimiter h)])
            = (rb, (d2, o2))"
    by (metis prod.collapse)
  obtain rl d3 where l: "logout d2 = (rl, d3)" by (metis prod.collapse)
  show ?thesis
  proof (cases rb)
    case (Inl e)
    then show ?thesis using serve_run_raises[OF dev op] r ok by simp
  next
    case (Inr b)
    show ?thesis
    proof (cases rl)
      case (Inl e)
      then show ?thesis using serve_logout_raises[OF dev op] r Inr l ok by simp
    next
      case lo: (Inr lo')
      show ?thesis
        using serve_completes[OF dev op r[unfolded Inr] l[unfolded lo]]
        by (simp add: finished_lines_def finished_line_def)
    qed
  qed
qed

lemma visit_count:
  assumes "fst (visit a h env w) = Inr ()"
  shows "length (finished_lines (log (snd (visit a h env w))))
           = length (finished_lines (log w)) + (if admitted a (h, env) then 1 else 0)"
  using visit_outcome[of a h env w] assms
  by (auto simp: admitted_def dest: serve_finished)

lemma for_targets_count:
  "for_targets a vs w = (Inr (), w') \<Longrightarrow>
   length (finished_lines (log w'))
     = length (finished_lines (log w)) + length (filter (admitted a) vs)"
proof (induction vs arbitrary: w)
  case Nil
  then show ?case by (simp add: ret_def)
next
  case (Cons v vs)
  obtain h env where v: "v = (h, env)" by (cases v)
  obtain r w1 where t: "visit a h env w = (r, w1)" by (metis prod.collapse)
  from Cons.prems have r: "r = Inr ()" and rest: "for_targets a vs w1 = (Inr (), w')"
    using v t by (auto simp: thn_def bnd_def split: sum.splits)
  have "length (finished_lines (log w1))
      = length (finished_lines (log w)) + (if admitted a (h, env) then 1 else 0)"
    using visit_count[of a h env w] t r by simp
  with Cons.IH[OF rest] show ?case using v by simp
qed

lemma open_log_keeps: "openLogFile a w = (Inr x, w') \<Longrightarrow> log w' = log w"
  by (auto simp: openLogFile_def Let_def split: if_splits)

lemma open_output_keeps: "openOutputFile a n w = (Inr x, w') \<Longrightarrow> log w' = log w"
  by (auto simp: openOutputFile_def Let_def split: if_splits)

text \<open>
  Claim C1, as amended. For every target list, when the run completes, the number of
  log lines \<^verbatim>\<open>Finished commands at <hostname>\<close> it has written equals the number of
  targets whose connect, login and (if requested) escalation steps all succeeded,
  whatever the command and logout steps of those targets did.
\<close>

theorem finished_lines_count:
  assumes "Activity_run a now net w = (Inr (), w')"
  shows "length (finished_lines (log w'))
           = length (finished_lines (log w)) + length (filter (admitted a) (visits a net))"
proof -
  define w0 where "w0 = w\<lparr>outputFilename := timestampedFilename (act_name a @ ''_OUT'') now,
          logFilename := timestampedFilename (act_name a @ ''_LOG'') now\<rparr>"
  have run: "Activity_run a now net w =
     thn (openLogFile a)
    (thn (if singleFile a then (\<lambda>w. openOutputFile a (outputFilename w) w) else ret ())
    (thn (for_targets a (visits a net))
    (thn (writeLogFile ''Finished activity'')
    (thn (if singleFile a then closeOutputFile a else ret ())
    (thn (writeLogFile ''END'')
    (closeLogFile a)))))) w0"
    by (simp add: Activity_run_def w0_def)
  obtain r1 w1 where o1: "openLogFile a w0 = (r1, w1)" by (metis prod.collapse)
  obtain r2 w2 where o2:
    "(if singleFile a then (\<lambda>w. openOutputFile a (outputFilename w) w) else ret ()) w1 = (r2, w2)"
    by (metis prod.collapse)
  obtain r3 w3 where o3: "for_targets a (visits a net) w2 = (r3, w3)" by (metis prod.collapse)
  from assms have r1: "r1 = Inr ()"
    unfolding run using o1 by (auto simp: thn_def bnd_def split: sum.splits)
  from assms have r2: "r2 = Inr ()"
    unfolding run using o1 r1 o2 by (auto simp: thn_def bnd_def split: sum.splits)
  from assms have r3: "r3 = Inr ()"
    unfolding run using o1 r1 o2 r2 o3 by (auto simp: thn_def bnd_def split: sum.splits)
  have l1: "log w1 = log w"
    using open_log_keeps[of a w0] o1 r1 by (simp add: w0_def)
  have l2: "log w2 = log w1"
    using o2 r2 open_output_keeps[of a "outputFilename w1" w1]
    by (auto simp: ret_def split: if_splits)
  have c: "length (finished_lines (log w3))
      = length (finished_lines (log w2)) + length (filter (admitted a) (visits a net))"
    using for_targets_count[of a "visits a net" w2 w3] o3 r3 by simp
  have "finished_lines (log w') = finished_lines (log w3)"
    using assms unfolding run using o1 r1 o2 r2 o3 r3
    by (auto simp: thn_def bnd_def writeLogFile_def closeOutputFile_def closeLogFile_def ret_def
        finished_lines_def finished_line_def split: if_splits)
  with c l1 l2 show ?thesis by simp
qed

lemma two_targets_run:
  "fst (Activity_run two_targets ''20181101_120000'' mixed_net (init_world (\<lambda>path. True)))
     = Inr ()"
  "log (snd (Activity_run two_targets ''20181101_120000'' mixed_net
               (init_world (\<lambda>path. True))))
     = [''Unable to connect to 10.0.0.1. Test with a local SSH session.'',
        ''Connected to 10.0.0.2'', ''Finished commands at 10.0.0.2'', ''Finished activity'',
        ''END'']"
  by (simp_all add: two_targets_def mixed_net_def unreachable_host_def silent_host_def
      prog_defs channel_defs device_defs activity_defs)

text \<open>
  Claim C1, as stated, fails. Of two targets the first cannot be reached: the run
  completes and has written one such line, for the second target only.
\<close>

theorem finished_lines_miss_failed_target:
  "targets two_targets \<noteq> []
   \<and> fst (Activity_run two_targets ''20181101_120000'' mixed_net
            (init_world (\<lambda>path. True))) = Inr ()
   \<and> length (finished_lines (log (snd (Activity_run two_targets ''20181101_120000'' mixed_net
            (init_world (\<lambda>path. True)))))) \<noteq> length (targets two_targets)"
  by (simp add: two_targets_run finished_lines_def finished_line_def)
     (simp add: two_targets_def)

theorem finished_lines_count_witness:
  "fst (Activity_run two_targets ''20181101_120000'' mixed_net (init_world (\<lambda>path. True)))
     = Inr ()
   \<and> length (finished_lines (log (snd (Activity_run two_targets ''20181101_120000'' mixed_net
            (init_world (\<lambda>path. True))))))
     = length (finished_lines (log (init_world (\<lambda>path. True))))
       + length (filter (admitted two_targets) (visits two_targets mixed_net))"
proof -
  have "Activity_run two_targets ''20181101_120000'' mixed_net (init_world (\<lambda>path. True))
      = (Inr (), snd (Activity_run two_targets ''20181101_120000'' mixed_net
                        (init_world (\<lambda>path. True))))"
    using two_targets_run(1) by (metis prod.collapse)
  from finished_lines_count[OF this] two_targets_run(1) show ?thesis by blast
qed

section \<open>A failure of the command runner\<close>

lemma run_grows: "prefix written (snd (snd (run cmds (\<lambda>t acc. acc @ [(s, t)]) (d, written))))"
  using growsD[OF grows_Device_run[of cmds "Pair s"], of written "invoked Run d"]
  by (simp add: run_def)

lemma run_retains:
  assumes "run earlier (\<lambda>t acc. acc @ [(s, t)]) (d, written) = (Inr True, (dn, wn))"
  shows "prefix wn (snd (snd (run (earlier @ rest) (\<lambda>t acc. acc @ [(s, t)]) (d, written))))"
proof -
  have "snd (Device_run (earlier @ rest) (\<lambda>t acc. acc @ [(s, t)]) (invoked Run d, written))
      = snd (for_commands (\<lambda>t acc. acc @ [(s, t)]) rest (dn, wn))"
    using assms by (intro Device_run_retains) (simp add: run_def)
  moreover have "prefix wn (snd (snd (for_commands (\<lambda>t acc. acc @ [(s, t)]) rest (dn, wn))))"
    using growsD[OF grows_for_commands[of "Pair s" rest], of wn dn] by simp
  ultimately show ?thesis by (simp add: run_def)
qed

lemma serve_after_failure:
  assumes dev: "aDevice w = Some d" and sh: "RemoteShell d"
    and bad: "script_failure (length (commands a)) (peer d)"
    and op: "\<not> (own_file a \<and> \<not> creatable w (target_path a h env))"
  shows "''ERROR while running the commmands'' \<in> set (log (snd (serve a h env w)))
       \<and> prefix (out w) (out (snd (serve a h env w)))
       \<and> Logout \<in> set (calls (the (aDevice (snd (serve a h env w)))))
       \<and> (fst (serve a h env w) = Inr ()
            \<or> (\<exists>d2 e. fst (logout d2) = Inl e \<and> fst (serve a h env w) = Inl e))
       \<and> (kind d = Device \<or> kind d = DeviceLinux \<longrightarrow> fst (serve a h env w) = Inr ())"
proof -
  define s where "s = outputFile (sink_opened a h env w)"
  obtain rb d2 o2 where
    r: "run (commands a) (\<lambda>t written. written @ [(s, t)]) (d, out w @ [(s, opening_delimiter h)])
            = (rb, (d2, o2))"
    by (metis prod.collapse)
  have rb: "rb = Inr False"
    using run_result[OF sh, of "commands a" "\<lambda>t written. written @ [(s, t)]"
        "out w @ [(s, opening_delimiter h)]"] r bad by simp
  have d2: "kind d2 = kind d" "RemoteShell d2"
    using run_device(1,2)[of "commands a" "\<lambda>t written. written @ [(s, t)]" d
        "out w @ [(s, opening_delimiter h)]"] r sh by simp_all
  have "prefix (out w @ [(s, opening_delimiter h)]) o2"
    using run_grows[of "out w @ [(s, opening_delimiter h)]" "commands a" s d] r by simp
  then have o2: "prefix (out w) o2" by (rule append_prefixD)
  obtain rl d3 where l: "logout d2 = (rl, d3)" by (metis prod.collapse)
  have c3: "Logout \<in> set (calls d3)"
    using logout_calls[of d2] l by simp
  show ?thesis
  proof (cases rl)
    case (Inl e)
    have "fst (logout d2) = Inl e" using l Inl by simp
    moreover have "\<not> (kind d = Device \<or> kind d = DeviceLinux)"
      using logout_returns[OF d2(2)] d2(1) l Inl by auto
    ultimately show ?thesis
      using serve_logout_raises[OF dev op r[unfolded rb s_def] l[unfolded Inl]] o2 c3
      by auto
  next
    case (Inr lo)
    have "prefix (out w) (o2 @ [(s, closing_delimiter)])"
      using o2 by (rule prefix_prefix)
    then show ?thesis
      using serve_completes[OF dev op r[unfolded rb s_def] l[unfolded Inr]] c3
      by (simp add: s_def)
  qed
qed


lemma linux_session_shell: "RemoteShell linux_session"
  by (simp add: linux_session_eval)

lemma linux_session_fails: "script_failure (length (commands su_activity)) (peer linux_session)"
  by (simp add: linux_session_eval su_activity_def script_failure_def new_device_def
      refusing_host_def)


section \<open>The delimiters of a target's output\<close>

text \<open>
  Claim C8. The claim says that every target that reaches the command phase gets its
  opening delimiter, its output and its closing delimiter. On a \<^verbatim>\<open>ciscoios\<close> target whose
  channel has bytes that are not UTF-8 ready when \<^verbatim>\<open>logout\<close> drains it, the decoding
  raises \<^verbatim>\<open>UnicodeDecodeError\<close>, which the \<^verbatim>\<open>except\<close> clause of
  \<^verbatim>\<open>DeviceCiscoIOS.logout\<close> does not name: \<^verbatim>\<open>Activity.run\<close> ends there, and the output
  holds the opening delimiter and the command output without a closing delimiter.
\<close>

theorem ios_logout_loses_closing_delimiter:
  "fst (Activity_run ios_activity ''20181101_120000''
          (\<lambda>i. \<lparr>host = garbling_host, clock = ''20181101_120001''\<rparr>)
          (init_world (\<lambda>path. True))) = Inl UnicodeDecodeError
   \<and> out (snd (Activity_run ios_activity ''20181101_120000''
          (\<lambda>i. \<lparr>host = garbling_host, clock = ''20181101_120001''\<rparr>)
          (init_world (\<lambda>path. True))))
       = [(Stdout, opening_delimiter ''10.0.0.4''), (Stdout, ''Cisco IOS Software'')]
   \<and> log (snd (Activity_run ios_activity ''20181101_120000''
          (\<lambda>i. \<lparr>host = garbling_host, clock = ''20181101_120001''\<rparr>)
          (init_world (\<lambda>path. True))))
       = [''Connected to 10.0.0.4'']"
  by (simp add: ios_activity_def garbling_host_def opening_delimiter_def prog_defs channel_defs
      device_defs activity_defs)

section \<open>The residual output\<close>

lemma recv_loop_texts:
  "snd (recv_loop (\<lambda>t acc. acc @ [g t]) cs f) = f @ map g (texts cs)"
proof (induction cs arbitrary: f)
  case Nil
  show ?case by simp
next
  case (Cons c cs)
  show ?case by (cases c) (simp_all add: Cons.IH)
qed

lemma residual_drain:
  assumes "RemoteShell d"
  shows "snd (snd (drain_write (\<lambda>t acc. acc @ [g t]) (d, f)))
           = f @ map g (texts (next_chunks (drains (peer d))))"
    and "fst (snd (drain_write (\<lambda>t acc. acc @ [g t]) (d, f))) = drained_state d"
  using recv_loop_texts[where f = f and g = g and cs = "next_chunks (drains (peer d))"] assms
  by (auto simp: drain_write_step split: prod.splits option.splits)

lemma Device_run_residual:
  assumes "RemoteShell d"
  shows "\<exists>rest. snd (snd (Device_run cmds (\<lambda>t acc. acc @ [g t]) (d, f)))
           = f @ map g (texts (next_chunks (drains (peer d)))) @ rest"
proof -
  let ?wr = "\<lambda>t acc. acc @ [g t]"
  obtain r d1 f1 where dw: "drain_write ?wr (d, f) = (r, (d1, f1))"
    by (metis prod.collapse)
  have f1: "f1 = f @ map g (texts (next_chunks (drains (peer d))))"
    using residual_drain(1)[OF assms, where g = g and f = f] dw by simp
  have "prefix f1 (snd (snd (Device_run cmds ?wr (d, f))))"
  proof (cases r)
    case (Inl e)
    then show ?thesis
      using dw by (simp add: Device_run_def try_except_def thn_def bnd_def ret_def)
  next
    case (Inr u)
    have g: "grows (thn (for_commands ?wr cmds) (ret True))"
      by (intro grows_thn grows_for_commands grows_ret)
    have "Device_run cmds ?wr (d, f)
        = try_except [SSHException, OSError, UnicodeDecodeError]
            (thn (for_commands ?wr cmds) (ret True)) (ret False) (d1, f1)"
      using dw Inr
      by (simp add: Device_run_def try_except_def thn_def[of "drain_write ?wr"] bnd_def)
    moreover have "grows (try_except [SSHException, OSError, UnicodeDecodeError]
            (thn (for_commands ?wr cmds) (ret True)) (ret False))"
      using g by (intro grows_try grows_ret)
    ultimately show ?thesis
      using growsD[of "try_except [SSHException, OSError, UnicodeDecodeError]
            (thn (for_commands ?wr cmds) (ret True)) (ret False)" f1 d1]
      by simp
  qed
  then show ?thesis
    unfolding f1 by (auto simp: prefix_def)
qed

lemma drain_write_trace: "trace (fst (snd (drain_write wr (d, f)))) = trace d"
  by (auto simp: drain_write_def next_drain_def split: list.splits prod.splits option.splits)

text \<open>
  Claim C10. On every session, what the first loop of \<^verbatim>\<open>Device.run\<close> receives and decodes
  before any command is sent is appended to the output file, not discarded: it stands
  in the output right after the target's opening delimiter, ahead of whatever the
  commands add, and the closing delimiter of a completed turn comes last.
\<close>

theorem residual_output_written:
  assumes dev: "aDevice w = Some d" and sh: "RemoteShell d"
    and op: "\<not> (own_file a \<and> \<not> creatable w (target_path a h env))"
  shows "snd (snd (drain_write (\<lambda>t acc. acc @ [(s, t)]) (invoked Run d, written)))
           = written @ map (Pair s) (texts (next_chunks (drains (peer d))))
       \<and> trace (fst (snd (drain_write (\<lambda>t acc. acc @ [(s, t)]) (invoked Run d, written))))
           = trace d
       \<and> (\<exists>rest. out (snd (serve a h env w))
             = out w @ [(outputFile (sink_opened a h env w), opening_delimiter h)]
               @ map (Pair (outputFile (sink_opened a h env w)))
                   (texts (next_chunks (drains (peer d))))
               @ rest)
       \<and> (fst (serve a h env w) = Inr ()
            \<longrightarrow> last (out (snd (serve a h env w)))
                  = (outputFile (sink_opened a h env w), closing_delimiter))"
proof (intro conjI impI)
  have shr: "RemoteShell (invoked Run d)" using sh by (simp add: invoked_def)
  have pr: "peer (invoked Run d) = peer d" by (simp add: invoked_def)
  show "snd (snd (drain_write (\<lambda>t acc. acc @ [(s, t)]) (invoked Run d, written)))
           = written @ map (Pair s) (texts (next_chunks (drains (peer d))))"
    using residual_drain(1)[OF shr, where g = "Pair s" and f = written] pr by simp
  show "trace (fst (snd (drain_write (\<lambda>t acc. acc @ [(s, t)]) (invoked Run d, written))))
           = trace d"
    by (simp add: drain_write_trace invoked_def)
  define k where "k = outputFile (sink_opened a h env w)"
  obtain rb d2 o2 where
    r: "run (commands a) (\<lambda>t written. written @ [(k, t)]) (d, out w @ [(k, opening_delimiter h)])
            = (rb, (d2, o2))"
    by (metis prod.collapse)
  obtain rest where o2: "o2 = (out w @ [(k, opening_delimiter h)])
       @ map (Pair k) (texts (next_chunks (drains (peer d)))) @ rest"
    using Device_run_residual[OF shr, where g = "Pair k" and cmds = "commands a"
        and f = "out w @ [(k, opening_delimiter h)]"] r pr
    by (auto simp: run_def)
  obtain b where rb: "rb = Inr b"
    using run_result[OF sh, of "commands a" "\<lambda>t written. written @ [(k, t)]"
        "out w @ [(k, opening_delimiter h)]"] r by simp
  obtain rl d3 where l: "logout d2 = (rl, d3)" by (metis prod.collapse)
  show "\<exists>rest. out (snd (serve a h env w))
             = out w @ [(outputFile (sink_opened a h env w), opening_delimiter h)]
               @ map (Pair (outputFile (sink_opened a h env w)))
                   (texts (next_chunks (drains (peer d))))
               @ rest"
  proof (cases rl)
    case (Inl e)
    show ?thesis
      using serve_logout_raises[OF dev op r[unfolded rb k_def] l[unfolded Inl]] o2
      by (simp add: k_def)
  next
    case (Inr lo)
    show ?thesis
      using serve_completes[OF dev op r[unfolded rb k_def] l[unfolded Inr]] o2
      by (simp add: k_def)
  qed
  show "last (out (snd (serve a h env w)))
          = (outputFile (sink_opened a h env w), closing_delimiter)"
    if ok: "fst (serve a h env w) = Inr ()"
  proof (cases rl)
    case (Inl e)
    then show ?thesis
      using serve_logout_raises[OF dev op r[unfolded rb k_def] l[unfolded Inl]] ok by simp
  next
    case (Inr lo)
    show ?thesis
      using serve_completes[OF dev op r[unfolded rb k_def] l[unfolded Inr]] by simp
  qed
qed

lemma banner_session_eval:
  "banner_session = (new_device Device ''10.0.0.5'' banner_host)
      \<lparr>username := ''admin'', password := ''secret'', RemoteShell := True, calls := [Connect]\<rparr>"
  by (simp add: banner_session_def prog_defs channel_defs device_defs banner_host_def)

theorem residual_output_written_witness:
  "aDevice banner_world = Some banner_session
   \<and> RemoteShell banner_session
   \<and> \<not> (own_file two_targets
         \<and> \<not> creatable banner_world (target_path two_targets ''10.0.0.5'' silent_turn))
   \<and> texts (next_chunks (drains (peer banner_session))) = [''Last login: '', ''Thu Nov 1'']
   \<and> (\<exists>rest. out (snd (serve two_targets ''10.0.0.5'' silent_turn banner_world))
         = out banner_world
           @ [(outputFile (sink_opened two_targets ''10.0.0.5'' silent_turn banner_world),
               opening_delimiter ''10.0.0.5'')]
           @ map (Pair (outputFile (sink_opened two_targets ''10.0.0.5'' silent_turn
                   banner_world)))
               (texts (next_chunks (drains (peer banner_session))))
           @ rest)"
proof -
  have dev: "aDevice banner_world = Some banner_session"
    by (simp add: banner_world_def)
  have sh: "RemoteShell banner_session"
    by (simp add: banner_session_eval)
  have op: "\<not> (own_file two_targets
         \<and> \<not> creatable banner_world (target_path two_targets ''10.0.0.5'' silent_turn))"
    by (simp add: own_file_def two_targets_def)
  have tx: "texts (next_chunks (drains (peer banner_session))) = [''Last login: '', ''Thu Nov 1'']"
    by (simp add: banner_session_eval new_device_def banner_host_def next_chunks_def)
  show ?thesis
    using dev sh op tx
      residual_output_written[OF dev sh op, where s = Stdout and written = "[]"]
    by blast
qed

end
